theory Spec2Isabelle
  imports Main
begin

section \<open>Strings of the program\<close>

text \<open>
  A Python \<open>str\<close> is a sequence of Unicode code points, and \<open>len\<close> counts code points.
  A code point is modelled as a natural number and a string as a list of them.
  \<open>texto\<close> reads an ASCII literal as such a string.
\<close>

type_synonym ustring = "nat list"

definition texto :: "string \<Rightarrow> ustring" where
  "texto s = map of_char s"

text \<open>
  The characters that \<open>\s\<close> of module \<open>re\<close> (on a \<open>str\<close> pattern) and \<open>str.strip()\<close>
  treat as whitespace: both ask the interpreter's one whitespace test for a code point.
\<close>

definition es_espacio :: "nat \<Rightarrow> bool" where
  "es_espacio c \<longleftrightarrow>
     (9 \<le> c \<and> c \<le> 13) \<or> (28 \<le> c \<and> c \<le> 32) \<or> c = 133 \<or> c = 160 \<or> c = 5760 \<or>
     (8192 \<le> c \<and> c \<le> 8202) \<or> c = 8232 \<or> c = 8233 \<or> c = 8239 \<or> c = 8287 \<or> c = 12288"

text \<open>
  The character class \<^verbatim>\<open>[<>:"/\\|?*]\<close> of \<open>limpiar_nombre_archivo\<close>, by code point:
  \<^verbatim>\<open><\<close> 60, \<^verbatim>\<open>>\<close> 62, \<^verbatim>\<open>:\<close> 58, \<^verbatim>\<open>"\<close> 34, \<^verbatim>\<open>/\<close> 47, \<^verbatim>\<open>\\<close> 92, \<^verbatim>\<open>|\<close> 124,
  \<^verbatim>\<open>?\<close> 63, \<^verbatim>\<open>*\<close> 42.
\<close>

definition reservado :: "nat \<Rightarrow> bool" where
  "reservado c \<longleftrightarrow> c \<in> {60, 62, 58, 34, 47, 92, 124, 63, 42}"

text \<open>The first \<open>re.sub\<close>, with replacement \<open>''\<close>: every reserved character is deleted.\<close>

definition quitar_reservados :: "ustring \<Rightarrow> ustring" where
  "quitar_reservados s = filter (\<lambda>c. \<not> reservado c) s"

text \<open>
  \<open>re.sub(r'\s+', ' ', s)\<close>: scanning from the left, every maximal run of whitespace
  is replaced by one space (code point 32).
\<close>

function colapsar_espacios :: "ustring \<Rightarrow> ustring" where
  "colapsar_espacios [] = []"
| "colapsar_espacios (c # cs) =
     (if es_espacio c then 32 # colapsar_espacios (dropWhile es_espacio cs)
      else c # colapsar_espacios cs)"
  by pat_completeness auto
termination
  by (relation "measure length") (auto simp: length_dropWhile_le less_Suc_eq_le)

text \<open>\<open>str.strip()\<close> without argument: whitespace is removed at both ends.\<close>

definition strip :: "ustring \<Rightarrow> ustring" where
  "strip s = rev (dropWhile es_espacio (rev (dropWhile es_espacio s)))"

section \<open>The filename sanitizer\<close>

text \<open>
  The value of \<open>nombre_limpio\<close> after the two substitutions and \<open>strip()\<close>, before the
  length cap and the placeholder.
\<close>

definition nombre_recortado :: "ustring \<Rightarrow> ustring" where
  "nombre_recortado nombre = strip (colapsar_espacios (quitar_reservados nombre))"

definition limpiar_nombre_archivo :: "ustring \<Rightarrow> ustring" where
  "limpiar_nombre_archivo nombre =
     (let nombre_limpio = quitar_reservados nombre;
          nombre_limpio = colapsar_espacios nombre_limpio;
          nombre_limpio = strip nombre_limpio;
          nombre_limpio = (if length nombre_limpio > 100 then take 100 nombre_limpio
                           else nombre_limpio);
          nombre_limpio = (if nombre_limpio = [] then texto ''certificado_sin_nombre''
                           else nombre_limpio)
      in nombre_limpio)"

text \<open>Two adjacent whitespace characters somewhere in the string.\<close>

fun espacios_dobles :: "ustring \<Rightarrow> bool" where
  "espacios_dobles (a # b # cs) \<longleftrightarrow> (es_espacio a \<and> es_espacio b) \<or> espacios_dobles (b # cs)"
| "espacios_dobles _ \<longleftrightarrow> False"

section \<open>Decimal numbers in file names\<close>

text \<open>
  \<open>str(n)\<close> for a non-negative integer: its decimal digits, most significant first, where
  the digit \<open>d\<close> is the code point \<open>48 + d\<close>.
\<close>

function str_nat :: "nat \<Rightarrow> ustring" where
  "str_nat n = (if n < 10 then [48 + n] else str_nat (n div 10) @ [48 + n mod 10])"
  by pat_completeness auto
termination
  by (relation "measure id") auto

declare str_nat.simps [simp del]

text \<open>The format \<open>{numero:03d}\<close>: zeros on the left up to a width of three.\<close>

definition formato_03d :: "nat \<Rightarrow> ustring" where
  "formato_03d numero = replicate (3 - length (str_nat numero)) 48 @ str_nat numero"

section \<open>Exceptions and the environment\<close>

text \<open>
  The exceptions that the modelled code raises or lets through. \<open>ValueError\<close> carries the
  rejected extension, \<open>OtraExcepcion\<close> the message of an exception raised by a library.
\<close>

datatype excepcion =
    FileNotFoundError
  | AttributeError
  | IndexError
  | ValueError ustring
  | OtraExcepcion ustring

text \<open>
  What \<open>match.group(1)\<close> gives on a match: a string, \<open>None\<close> when group 1 took no part in
  the match, or an \<open>IndexError\<close> when the pattern has no group 1.
\<close>

datatype grupo = Texto ustring | Ninguno | Inexistente

text \<open>
  What \<open>re.search(patron, texto, re.IGNORECASE | re.DOTALL)\<close> does: it raises \<open>re.error\<close>
  on a pattern that does not compile, returns \<open>None\<close>, or returns a match.
\<close>

datatype coincidencia = PatronInvalido | SinCoincidencia | Coincide grupo

text \<open>A page is its text (\<open>pagina.get_text()\<close>); a document is the list of its pages.\<close>

type_synonym pagina = ustring

text \<open>What is found at the path of an input PDF when the program looks there.\<close>

datatype archivo_pdf = NoExiste | Ilegible ustring | Pdf "pagina list"

datatype formato = Excel | Csv

text \<open>
  The libraries and the parts of the file system that the program only reads are
  parameters of the model:
  \<^item> \<open>re_search patron texto\<close> is the search of module \<open>re\<close> with the two flags;
  \<^item> \<open>guardar ruta_pdf i nombre_archivo\<close> is the outcome of \<open>insert_pdf\<close> and \<open>save\<close> for
    page index \<open>i\<close> of the document at \<open>ruta_pdf\<close>: \<open>None\<close> when the file is written,
    \<open>Some msg\<close> when one of them raises an exception whose text is \<open>msg\<close>;
  \<^item> \<open>pdf_en ruta\<close> is what \<open>os.path.exists\<close> and \<open>fitz.open\<close> find at a path;
  \<^item> \<open>existe ruta\<close> is \<open>os.path.exists\<close> on the path of the list file;
  \<^item> \<open>leer_tabla f ruta\<close> is \<open>read_excel\<close> or \<open>read_csv\<close> followed by
    \<open>df.iloc[:, 0].astype(str).tolist()\<close>: the first column as strings, or an exception;
  \<^item> \<open>path_suffix\<close>, \<open>path_name\<close> and \<open>str_lower\<close> are \<open>Path(p).suffix\<close>, \<open>Path(p).name\<close>
    and \<open>str.lower()\<close>;
  \<^item> \<open>patrones_cargados\<close> is the list that \<open>cargar_patrones()\<close> returns;
  \<^item> \<open>unlink_ok ruta\<close> tells whether \<open>unlink()\<close> of that file succeeds.
\<close>

record entorno =
  re_search :: "ustring \<Rightarrow> ustring \<Rightarrow> coincidencia"
  guardar :: "ustring \<Rightarrow> nat \<Rightarrow> ustring \<Rightarrow> ustring option"
  pdf_en :: "ustring \<Rightarrow> archivo_pdf"
  existe :: "ustring \<Rightarrow> bool"
  leer_tabla :: "formato \<Rightarrow> ustring \<Rightarrow> excepcion + ustring list"
  path_suffix :: "ustring \<Rightarrow> ustring"
  path_name :: "ustring \<Rightarrow> ustring"
  str_lower :: "ustring \<Rightarrow> ustring"
  patrones_cargados :: "ustring list"
  unlink_ok :: "ustring \<Rightarrow> bool"

text \<open>
  The part of the world that the program changes. \<open>salida\<close> lists the paths, relative to
  the output directory, at which something exists. \<open>entrada\<close> is \<open>None\<close> when the input
  directory does not exist and otherwise lists the paths that \<open>glob("*.pdf")\<close> finds in
  it. \<open>abiertos\<close> lists the document handles that are open: the input document, and the
  one-page document made for page index \<open>i\<close>.
\<close>

datatype manejador = Documento | Nuevo nat

record mundo =
  salida :: "ustring list"
  entrada :: "ustring list option"
  abiertos :: "manejador list"

section \<open>Name extraction\<close>

text \<open>\<open>s.split('\n')[0]\<close>: the part of \<open>s\<close> before its first line feed (code point 10).\<close>

definition primera_linea :: "ustring \<Rightarrow> ustring" where
  "primera_linea s = takeWhile (\<lambda>c. c \<noteq> 10) s"

text \<open>
  \<open>extraer_nombre_de_pagina\<close>, on the text of the page. A pattern that does not compile is
  reported and skipped (\<open>except re.error\<close>); the \<open>AttributeError\<close> of \<open>None.strip()\<close> and
  the \<open>IndexError\<close> of a missing group are not caught there and leave the function.
\<close>

fun extraer_nombre_de_pagina ::
  "(ustring \<Rightarrow> ustring \<Rightarrow> coincidencia) \<Rightarrow> pagina \<Rightarrow> ustring list \<Rightarrow> excepcion + ustring option"
where
  "extraer_nombre_de_pagina buscar texto_pagina [] = Inr None"
| "extraer_nombre_de_pagina buscar texto_pagina (patron_regex # patrones) =
     (case buscar patron_regex texto_pagina of
        PatronInvalido \<Rightarrow> extraer_nombre_de_pagina buscar texto_pagina patrones
      | SinCoincidencia \<Rightarrow> extraer_nombre_de_pagina buscar texto_pagina patrones
      | Coincide g \<Rightarrow>
          (case g of
             Inexistente \<Rightarrow> Inl IndexError
           | Ninguno \<Rightarrow> Inl AttributeError
           | Texto t \<Rightarrow>
               (let nombre = strip t;
                    nombre = colapsar_espacios nombre;
                    nombre = strip (primera_linea nombre)
                in if nombre \<noteq> [] \<and> length nombre > 2 then Inr (Some nombre)
                   else extraer_nombre_de_pagina buscar texto_pagina patrones)))"

section \<open>The name list\<close>

text \<open>
  \<open>cargar_lista_nombres\<close>. Every exception raised inside its \<open>try\<close>, the \<open>ValueError\<close> of an
  unsupported extension included, is caught there: the function prints the error and
  returns the empty list. The result is the returned list together with the exception
  that was reported, if any. The module \<open>pandas\<close>, imported before the \<open>try\<close>, is taken
  to be installed.
\<close>

definition cargar_lista_nombres :: "entorno \<Rightarrow> ustring \<Rightarrow> ustring list \<times> excepcion option" where
  "cargar_lista_nombres ent ruta_archivo =
     (let extension = str_lower ent (path_suffix ent ruta_archivo);
          df = (if extension = texto ''.xlsx'' \<or> extension = texto ''.xls''
                then leer_tabla ent Excel ruta_archivo
                else if extension = texto ''.csv''
                then leer_tabla ent Csv ruta_archivo
                else Inl (ValueError extension))
      in case df of
           Inl e \<Rightarrow> ([], Some e)
         | Inr nombres \<Rightarrow>
             (filter (\<lambda>n. n \<noteq> [] \<and> str_lower ent n \<noteq> texto ''nan'' \<and> strip n \<noteq> []) nombres,
              None))"

section \<open>The splitter\<close>

text \<open>The file name tried for the value \<open>contador\<close> of the counter.\<close>

definition nombre_con_contador :: "ustring \<Rightarrow> ustring \<Rightarrow> nat \<Rightarrow> ustring \<Rightarrow> ustring" where
  "nombre_con_contador prefijo nombre_limpio contador sufijo =
     prefijo @ nombre_limpio @ texto ''_'' @ str_nat contador @ sufijo @ texto ''.pdf''"

text \<open>
  The loop \<open>while ruta_salida.exists()\<close>. \<open>existentes\<close> lists what exists in the output
  directory, \<open>nombre_archivo\<close> is the name about to be tested and \<open>contador\<close> the counter.
  The list is finite and the names tried are pairwise different, so the loop ends.
\<close>

function manejar_duplicados ::
  "ustring list \<Rightarrow> ustring \<Rightarrow> ustring \<Rightarrow> ustring \<Rightarrow> ustring \<Rightarrow> nat \<Rightarrow> ustring"
where
  "manejar_duplicados existentes prefijo nombre_limpio sufijo nombre_archivo contador =
     (if nombre_archivo \<in> set existentes
      then manejar_duplicados existentes prefijo nombre_limpio sufijo
             (nombre_con_contador prefijo nombre_limpio contador sufijo) (contador + 1)
      else nombre_archivo)"
  by pat_completeness auto
termination
proof -
  have len: "str_nat n \<noteq> []" for n
    by (subst str_nat.simps) simp
  have iny: "str_nat n = str_nat k \<Longrightarrow> n = k" for n k
  proof (induction n arbitrary: k rule: str_nat.induct)
    case (1 n)
    show ?case
    proof (cases "n < 10")
      case True
      show ?thesis
      proof (cases "k < 10")
        case k: True
        from "1.prems" True k show ?thesis
          by (subst (asm) str_nat.simps, subst (asm) (2) str_nat.simps) simp
      next
        case k: False
        from "1.prems" True k have "[48 + n] = str_nat (k div 10) @ [48 + k mod 10]"
          by (subst (asm) str_nat.simps, subst (asm) (2) str_nat.simps) simp
        then have "str_nat (k div 10) = []" by simp
        with len show ?thesis by blast
      qed
    next
      case False
      show ?thesis
      proof (cases "k < 10")
        case k: True
        from "1.prems" False k have "str_nat (n div 10) @ [48 + n mod 10] = [48 + k]"
          by (subst (asm) str_nat.simps, subst (asm) (2) str_nat.simps) simp
        then have "str_nat (n div 10) = []" by simp
        with len show ?thesis by blast
      next
        case k: False
        from "1.prems" False k
        have "str_nat (n div 10) @ [48 + n mod 10] = str_nat (k div 10) @ [48 + k mod 10]"
          by (subst (asm) str_nat.simps, subst (asm) (2) str_nat.simps) simp
        then have a: "str_nat (n div 10) = str_nat (k div 10)" and b: "n mod 10 = k mod 10"
          by simp_all
        from "1.IH" [OF False a] have c: "n div 10 = k div 10" .
        have "n = 10 * (n div 10) + n mod 10" by simp
        also have "\<dots> = 10 * (k div 10) + k mod 10" by (simp only: b c)
        also have "\<dots> = k" by simp
        finally show ?thesis .
      qed
    qed
  qed
  have inj: "inj (\<lambda>c. nombre_con_contador p n c s)" for p n s
    by (rule injI) (auto simp: nombre_con_contador_def dest: iny)
  have fin: "finite {c. nombre_con_contador p n c s \<in> set fs}" for p n s fs
  proof -
    have "{c. nombre_con_contador p n c s \<in> set fs} = (\<lambda>c. nombre_con_contador p n c s) -` set fs"
      by auto
    then show ?thesis
      using finite_vimageI [OF finite_set inj] by simp
  qed
  let ?pend = "\<lambda>fs p n s (c::nat). {k. c \<le> k \<and> nombre_con_contador p n k s \<in> set fs}"
  let ?m = "\<lambda>(fs, p, n, s, a, c). card (?pend fs p n s c) + (if a \<in> set fs then 1 else 0)"
  show ?thesis
  proof (relation "measure ?m")
    show "wf (measure ?m)" by simp
  next
    fix existentes :: "ustring list" and prefijo nombre_limpio sufijo nombre_archivo :: ustring
      and contador :: nat
    assume ex: "nombre_archivo \<in> set existentes"
    let ?A = "?pend existentes prefijo nombre_limpio sufijo contador"
    let ?B = "?pend existentes prefijo nombre_limpio sufijo (contador + 1)"
    let ?cand = "nombre_con_contador prefijo nombre_limpio contador sufijo"
    have finA: "finite ?A"
      by (rule finite_subset [OF _ fin [of prefijo nombre_limpio sufijo existentes]]) auto
    have "card ?B + (if ?cand \<in> set existentes then 1 else 0) \<le> card ?A"
    proof (cases "?cand \<in> set existentes")
      case True
      have mem: "contador \<in> ?A" using True by simp
      have eq: "?B = ?A - {contador}" by auto
      have "card ?B = card (?A - {contador})" by (simp only: eq)
      moreover have "Suc (card (?A - {contador})) = card ?A"
        by (rule card_Suc_Diff1 [OF finA mem])
      ultimately have "card ?B + 1 = card ?A" by simp
      with True show ?thesis by simp
    next
      case False
      have "?B \<subseteq> ?A" by auto
      then have "card ?B \<le> card ?A" using finA by (rule card_mono [rotated])
      with False show ?thesis by simp
    qed
    with ex show "((existentes, prefijo, nombre_limpio, sufijo, ?cand, contador + 1),
                   (existentes, prefijo, nombre_limpio, sufijo, nombre_archivo, contador))
                  \<in> measure ?m"
      by simp
  qed
qed

declare manejar_duplicados.simps [simp del]

text \<open>The three tags of \<open>origen\<close>: \<open>"lista"\<close>, \<open>"extraido"\<close> and \<open>"generado"\<close>.\<close>

datatype origen = Lista | Extraido | Generado

text \<open>
  The entries of \<open>resultados["exitosos"]\<close> and \<open>resultados["errores"]\<close>, and the summary.
  \<open>e_archivo\<close> is the path of the written file relative to the output directory.
\<close>

record exito =
  e_pagina :: nat
  e_nombre :: ustring
  e_archivo :: ustring
  e_origen :: origen

record fallo =
  f_pagina :: nat
  f_error :: ustring

record resultados =
  exitosos :: "exito list"
  errores :: "fallo list"
  total :: nat
  pdf_origen :: ustring

text \<open>
  The name of the page with index \<open>i\<close> and its origin: the list entry when the list is
  not empty and has an entry \<open>i\<close>, the extracted name otherwise, and the generated name
  when what was obtained is \<open>None\<close> or the empty string (\<open>if not nombre\<close>).
\<close>

definition nombre_de_pagina ::
  "entorno \<Rightarrow> ustring list option \<Rightarrow> ustring list \<Rightarrow> nat \<Rightarrow> pagina \<Rightarrow> excepcion + (ustring \<times> origen)"
where
  "nombre_de_pagina ent lista_nombres patrones i pag =
     (let numero = i + 1;
          obtenido =
            (case lista_nombres of
               Some l \<Rightarrow>
                 if l \<noteq> [] \<and> i < length l then Inr (Some (l ! i), Lista)
                 else map_sum id (\<lambda>n. (n, Extraido))
                        (extraer_nombre_de_pagina (re_search ent) pag patrones)
             | None \<Rightarrow>
                 map_sum id (\<lambda>n. (n, Extraido))
                   (extraer_nombre_de_pagina (re_search ent) pag patrones))
      in case obtenido of
           Inl e \<Rightarrow> Inl e
         | Inr (nombre, org) \<Rightarrow>
             (case nombre of
                None \<Rightarrow> Inr (texto ''certificado_'' @ formato_03d numero, Generado)
              | Some n \<Rightarrow>
                  if n = [] then Inr (texto ''certificado_'' @ formato_03d numero, Generado)
                  else Inr (n, org)))"

text \<open>
  One turn of the loop over the pages. An exception of the name extraction leaves the
  loop. \<open>fitz.open()\<close> opens the one-page document; when \<open>insert_pdf\<close> and \<open>save\<close> succeed
  the file exists from then on, the document is closed and the success is recorded; when
  one of them raises, the \<open>except\<close> branch records the error, and \<open>close()\<close> has not been
  reached.
\<close>

definition procesar_pagina ::
  "entorno \<Rightarrow> ustring \<Rightarrow> ustring list option \<Rightarrow> ustring list \<Rightarrow> ustring \<Rightarrow> ustring \<Rightarrow>
   nat \<Rightarrow> pagina \<Rightarrow> mundo \<Rightarrow> resultados \<Rightarrow> mundo \<times> (excepcion + resultados)"
where
  "procesar_pagina ent ruta_pdf lista_nombres patrones prefijo sufijo i pag m res =
     (let numero = i + 1 in
      case nombre_de_pagina ent lista_nombres patrones i pag of
        Inl e \<Rightarrow> (m, Inl e)
      | Inr (nombre, org) \<Rightarrow>
          (let nombre_limpio = limpiar_nombre_archivo nombre;
               nombre_archivo = prefijo @ nombre_limpio @ sufijo @ texto ''.pdf'';
               nombre_archivo =
                 manejar_duplicados (salida m) prefijo nombre_limpio sufijo nombre_archivo 1;
               m = m\<lparr>abiertos := Nuevo i # abiertos m\<rparr>
           in case guardar ent ruta_pdf i nombre_archivo of
                None \<Rightarrow>
                  (m\<lparr>salida := nombre_archivo # salida m,
                     abiertos := remove1 (Nuevo i) (abiertos m)\<rparr>,
                   Inr (res\<lparr>exitosos := exitosos res @
                          [\<lparr>e_pagina = numero, e_nombre = nombre,
                            e_archivo = nombre_archivo, e_origen = org\<rparr>]\<rparr>))
              | Some msg \<Rightarrow>
                  (m, Inr (res\<lparr>errores := errores res @
                             [\<lparr>f_pagina = numero, f_error = msg\<rparr>]\<rparr>))))"

text \<open>The loop \<open>for i in range(total_paginas)\<close>, from index \<open>i\<close> over the pages left.\<close>

fun bucle_paginas ::
  "entorno \<Rightarrow> ustring \<Rightarrow> ustring list option \<Rightarrow> ustring list \<Rightarrow> ustring \<Rightarrow> ustring \<Rightarrow>
   nat \<Rightarrow> pagina list \<Rightarrow> mundo \<Rightarrow> resultados \<Rightarrow> mundo \<times> (excepcion + resultados)"
where
  "bucle_paginas ent ruta_pdf lista_nombres patrones prefijo sufijo i [] m res = (m, Inr res)"
| "bucle_paginas ent ruta_pdf lista_nombres patrones prefijo sufijo i (pag # pags) m res =
     (case procesar_pagina ent ruta_pdf lista_nombres patrones prefijo sufijo i pag m res of
        (m', Inl e) \<Rightarrow> (m', Inl e)
      | (m', Inr res') \<Rightarrow>
          bucle_paginas ent ruta_pdf lista_nombres patrones prefijo sufijo (i + 1) pags m' res')"

text \<open>
  \<open>separar_certificados\<close>, with the patterns already loaded. A missing file raises
  \<open>FileNotFoundError\<close>, a file that \<open>fitz.open\<close> rejects raises its exception. The input
  document is closed after the loop; an exception that leaves the loop leaves the function
  before that.
\<close>

definition separar_certificados ::
  "entorno \<Rightarrow> mundo \<Rightarrow> ustring \<Rightarrow> ustring list option \<Rightarrow> ustring list \<Rightarrow> ustring \<Rightarrow> ustring \<Rightarrow>
   mundo \<times> (excepcion + resultados)"
where
  "separar_certificados ent m ruta_pdf lista_nombres patrones prefijo sufijo =
     (case pdf_en ent ruta_pdf of
        NoExiste \<Rightarrow> (m, Inl FileNotFoundError)
      | Ilegible msg \<Rightarrow> (m, Inl (OtraExcepcion msg))
      | Pdf documento \<Rightarrow>
          (let m = m\<lparr>abiertos := Documento # abiertos m\<rparr>;
               total_paginas = length documento;
               res = \<lparr>exitosos = [], errores = [], total = total_paginas,
                      pdf_origen = path_name ent ruta_pdf\<rparr>
           in case bucle_paginas ent ruta_pdf lista_nombres patrones prefijo sufijo 0
                     documento m res of
                (m', Inl e) \<Rightarrow> (m', Inl e)
              | (m', Inr res') \<Rightarrow>
                  (m'\<lparr>abiertos := remove1 Documento (abiertos m')\<rparr>, Inr res')))"

section \<open>The batch over the input directory\<close>

text \<open>A name that \<open>glob("*.pdf")\<close> matches: it ends with \<open>.pdf\<close>.\<close>

definition es_pdf :: "ustring \<Rightarrow> bool" where
  "es_pdf a \<longleftrightarrow> length a \<ge> 4 \<and> drop (length a - 4) a = texto ''.pdf''"

text \<open>
  \<open>limpiar_carpeta_salida\<close>: of the entries of the output directory itself (no \<open>/\<close>, code
  point 47, in the relative path) that end with \<open>.pdf\<close>, those whose \<open>unlink()\<close> succeeds are
  gone. The number of deleted files is returned.
\<close>

definition limpiar_carpeta_salida :: "entorno \<Rightarrow> mundo \<Rightarrow> mundo \<times> nat" where
  "limpiar_carpeta_salida ent m =
     (let borrado = (\<lambda>a. es_pdf a \<and> 47 \<notin> set a \<and> unlink_ok ent a)
      in (m\<lparr>salida := filter (\<lambda>a. \<not> borrado a) (salida m)\<rparr>,
          length (filter borrado (salida m))))"

text \<open>\<open>eliminar_pdf_entrada\<close>: the file is deleted when it exists and \<open>unlink()\<close> succeeds.\<close>

definition eliminar_pdf_entrada :: "entorno \<Rightarrow> mundo \<Rightarrow> ustring \<Rightarrow> mundo \<times> bool" where
  "eliminar_pdf_entrada ent m ruta_pdf =
     (case entrada m of
        None \<Rightarrow> (m, False)
      | Some archivos \<Rightarrow>
          if ruta_pdf \<in> set archivos \<and> unlink_ok ent ruta_pdf
          then (m\<lparr>entrada := Some (removeAll ruta_pdf archivos)\<rparr>, True)
          else (m, False))"

text \<open>
  The loop of \<open>procesar_carpeta_entrada\<close> over the PDFs found. An exception of
  \<open>separar_certificados\<close> is caught and reported, and the document gives no summary. The
  state is the world, the summaries collected and the paths of the documents without a
  failed page.
\<close>

fun bucle_pdfs ::
  "entorno \<Rightarrow> ustring list option \<Rightarrow> ustring list \<Rightarrow> ustring \<Rightarrow> ustring \<Rightarrow> ustring list \<Rightarrow>
   mundo \<Rightarrow> resultados list \<Rightarrow> ustring list \<Rightarrow> mundo \<times> resultados list \<times> ustring list"
where
  "bucle_pdfs ent lista_nombres patrones prefijo sufijo [] m todos_resultados pdfs_procesados =
     (m, todos_resultados, pdfs_procesados)"
| "bucle_pdfs ent lista_nombres patrones prefijo sufijo (pdf # pdfs) m todos_resultados
     pdfs_procesados =
     (case separar_certificados ent m pdf lista_nombres patrones prefijo sufijo of
        (m', Inl e) \<Rightarrow>
          bucle_pdfs ent lista_nombres patrones prefijo sufijo pdfs m' todos_resultados
            pdfs_procesados
      | (m', Inr resultado) \<Rightarrow>
          bucle_pdfs ent lista_nombres patrones prefijo sufijo pdfs m'
            (todos_resultados @ [resultado])
            (if errores resultado = [] then pdfs_procesados @ [pdf] else pdfs_procesados))"

definition procesar_carpeta_entrada ::
  "entorno \<Rightarrow> mundo \<Rightarrow> ustring list option \<Rightarrow> ustring \<Rightarrow> ustring \<Rightarrow> bool \<Rightarrow> bool \<Rightarrow>
   mundo \<times> resultados list"
where
  "procesar_carpeta_entrada ent m lista_nombres prefijo sufijo limpiar_salida eliminar_entrada =
     (case entrada m of
        None \<Rightarrow> (m\<lparr>entrada := Some []\<rparr>, [])
      | Some archivos_pdf \<Rightarrow>
          if archivos_pdf = [] then (m, [])
          else
            (let m = (if limpiar_salida then fst (limpiar_carpeta_salida ent m) else m);
                 patrones = patrones_cargados ent;
                 (m, todos_resultados, pdfs_procesados) =
                   bucle_pdfs ent lista_nombres patrones prefijo sufijo archivos_pdf m [] [];
                 m = (if eliminar_entrada \<and> pdfs_procesados \<noteq> []
                      then foldl (\<lambda>m pdf_path. fst (eliminar_pdf_entrada ent m pdf_path)) m
                             pdfs_procesados
                      else m)
             in (m, todos_resultados)))"

section \<open>The command line\<close>

text \<open>
  The parsed arguments. \<open>--archivo\<close> and \<open>--lista\<close> are \<open>None\<close> when absent; the output
  directory of \<open>--salida\<close> is the directory that \<open>salida\<close> of the world describes.
\<close>

record argumentos =
  archivo :: "ustring option"
  lista :: "ustring option"
  prefijo_arg :: ustring
  sufijo_arg :: ustring
  ver_patrones :: bool
  no_limpiar :: bool
  no_borrar_entrada :: bool

text \<open>
  \<open>main\<close>, giving the exit status of the process. \<open>--ver-patrones\<close> returns from \<open>main\<close>,
  which ends the process with status 0. A list file that does not exist ends it with
  status 1. \<open>if args.lista\<close> and \<open>if args.archivo\<close> are false for \<open>None\<close> and for the empty
  string. Every exception of the single-file run is caught at the end and gives status 1.
\<close>

definition main :: "entorno \<Rightarrow> mundo \<Rightarrow> argumentos \<Rightarrow> mundo \<times> nat" where
  "main ent m args =
     (if ver_patrones args then (m, 0)
      else
        (let con_lista = (lista args \<noteq> None \<and> lista args \<noteq> Some [])
         in if con_lista \<and> \<not> existe ent (the (lista args)) then (m, 1)
            else
              (let lista_nombres =
                     (if con_lista then Some (fst (cargar_lista_nombres ent (the (lista args))))
                      else None)
               in if archivo args \<noteq> None \<and> archivo args \<noteq> Some []
                  then
                    (case separar_certificados ent m (the (archivo args)) lista_nombres
                            (patrones_cargados ent) (prefijo_arg args) (sufijo_arg args) of
                       (m', Inl e) \<Rightarrow> (m', 1)
                     | (m', Inr resultado) \<Rightarrow>
                         if errores resultado \<noteq> [] then (m', 1) else (m', 0))
                  else
                    (case procesar_carpeta_entrada ent m lista_nombres (prefijo_arg args)
                            (sufijo_arg args) (\<not> no_limpiar args) (\<not> no_borrar_entrada args) of
                       (m', resultados) \<Rightarrow>
                         if resultados = [] then (m', 1) else (m', 0)))))"

section \<open>Invariants of a run\<close>

text \<open>
  After the pages with index below \<open>i\<close>: the page numbers of the successes and of the
  errors are each in ascending order, together they are the numbers from 1 to \<open>i\<close>, no
  number is in both lists, and the lists have \<open>i\<close> entries together.
\<close>

definition paginas_repartidas :: "nat \<Rightarrow> resultados \<Rightarrow> bool" where
  "paginas_repartidas i res \<longleftrightarrow>
     sorted_wrt (<) (map e_pagina (exitosos res)) \<and>
     sorted_wrt (<) (map f_pagina (errores res)) \<and>
     set (map e_pagina (exitosos res)) \<union> set (map f_pagina (errores res)) = {1..i} \<and>
     set (map e_pagina (exitosos res)) \<inter> set (map f_pagina (errores res)) = {} \<and>
     length (exitosos res) + length (errores res) = i"

text \<open>Two output directories that hold the same paths ending with \<open>.pdf\<close>.\<close>

definition mismos_pdf :: "ustring list \<Rightarrow> ustring list \<Rightarrow> bool" where
  "mismos_pdf fs1 fs2 \<longleftrightarrow> set (filter es_pdf fs1) = set (filter es_pdf fs2)"

text \<open>
  The successes of a run in the order of the pages, checked against the document and
  the output directory \<open>fs\<close> found by the first of them: the page number is one of the
  document, the name and the origin are the ones of \<open>nombre_de_pagina\<close> for that page,
  the file is the one that the loop over the counter chooses in the directory of that
  moment, saving it succeeded, and the next success finds the directory with this
  file added.
\<close>

fun exitos_correctos ::
  "entorno \<Rightarrow> ustring \<Rightarrow> ustring list option \<Rightarrow> ustring list \<Rightarrow> ustring \<Rightarrow> ustring \<Rightarrow>
   pagina list \<Rightarrow> ustring list \<Rightarrow> exito list \<Rightarrow> bool"
where
  "exitos_correctos ent ruta_pdf lista_nombres patrones prefijo sufijo documento fs [] \<longleftrightarrow> True"
| "exitos_correctos ent ruta_pdf lista_nombres patrones prefijo sufijo documento fs (e # es) \<longleftrightarrow>
     1 \<le> e_pagina e \<and> e_pagina e \<le> length documento \<and>
     nombre_de_pagina ent lista_nombres patrones (e_pagina e - 1) (documento ! (e_pagina e - 1))
       = Inr (e_nombre e, e_origen e) \<and>
     e_archivo e = manejar_duplicados fs prefijo (limpiar_nombre_archivo (e_nombre e)) sufijo
                     (prefijo @ limpiar_nombre_archivo (e_nombre e) @ sufijo @ texto ''.pdf'') 1 \<and>
     guardar ent ruta_pdf (e_pagina e - 1) (e_archivo e) = None \<and>
     exitos_correctos ent ruta_pdf lista_nombres patrones prefijo sufijo documento
       (e_archivo e # fs) es"

section \<open>Example environments\<close>

text \<open>
  An environment built from a search function, a save outcome and the input files, for
  the concrete runs below: every list file exists and is an empty table, and every
  \<open>unlink()\<close> succeeds.
\<close>

definition entorno_de ::
  "(ustring \<Rightarrow> ustring \<Rightarrow> coincidencia) \<Rightarrow> (ustring \<Rightarrow> nat \<Rightarrow> ustring \<Rightarrow> ustring option) \<Rightarrow>
   (ustring \<Rightarrow> archivo_pdf) \<Rightarrow> entorno"
where
  "entorno_de buscar g pdfs =
     \<lparr>re_search = buscar, guardar = g, pdf_en = pdfs, existe = (\<lambda>_. True),
      leer_tabla = (\<lambda>_ _. Inr []), path_suffix = (\<lambda>_. []), path_name = (\<lambda>p. p),
      str_lower = (\<lambda>s. s), patrones_cargados = [texto ''a: (.+)''],
      unlink_ok = (\<lambda>_. True)\<rparr>"

text \<open>A world with an empty output directory, no input directory and no open handle.\<close>

definition mundo_vacio :: mundo where
  "mundo_vacio = \<lparr>salida = [], entrada = None, abiertos = []\<rparr>"

text \<open>
  A document of two pages, no pattern that matches, and a \<open>save\<close> that raises for the
  second page (index 1).
\<close>

definition entorno_dos_paginas :: entorno where
  "entorno_dos_paginas =
     entorno_de (\<lambda>_ _. SinCoincidencia)
       (\<lambda>_ i _. if i = 1 then Some (texto ''cannot save'') else None)
       (\<lambda>_. Pdf [texto ''uno'', texto ''dos''])"

text \<open>
  The scenario of the specification: a search that finds \<open>Jane Doe\<close> in the text of the
  first page and \<open>Ana Ruiz\<close> in the text of the third, a document of these three pages, and
  a \<open>save\<close> that always succeeds.
\<close>

definition buscar_escenario :: "ustring \<Rightarrow> ustring \<Rightarrow> coincidencia" where
  "buscar_escenario patron t =
     (if t = texto ''Otorga a: Jane Doe'' then Coincide (Texto (texto ''Jane Doe''))
      else if t = texto ''Certifica a: Ana Ruiz'' then Coincide (Texto (texto ''Ana Ruiz''))
      else SinCoincidencia)"

definition entorno_escenario :: entorno where
  "entorno_escenario =
     entorno_de buscar_escenario (\<lambda>_ _ _. None)
       (\<lambda>_. Pdf [texto ''Otorga a: Jane Doe'', texto ''Sin nombre'',
                  texto ''Certifica a: Ana Ruiz''])"

text \<open>
  Three variants of the scenario for the list file: one where the path has the extension
  \<open>.txt\<close>; one where the path has the extension \<open>.XLSX\<close>, whose lower case is \<open>.xlsx\<close>,
  and the spreadsheet holds the one name \<open>Ana\<close>; and one where the list file does not
  exist.
\<close>

definition entorno_lista_txt :: entorno where
  "entorno_lista_txt = entorno_escenario\<lparr>path_suffix := (\<lambda>_. texto ''.txt'')\<rparr>"

definition entorno_mayusculas :: entorno where
  "entorno_mayusculas =
     entorno_escenario\<lparr>path_suffix := (\<lambda>_. texto ''.XLSX''),
        str_lower := (\<lambda>s. if s = texto ''.XLSX'' then texto ''.xlsx'' else s),
        leer_tabla := (\<lambda>_ _. Inr [texto ''Ana''])\<rparr>"

definition entorno_lista_ausente :: entorno where
  "entorno_lista_ausente = entorno_escenario\<lparr>existe := (\<lambda>_. False)\<rparr>"

section \<open>Properties of the filename sanitizer\<close>

lemma es_espacio_32: "es_espacio 32"
  by (simp add: es_espacio_def)

lemma reservado_no_espacio: "reservado c \<Longrightarrow> \<not> es_espacio c"
  by (auto simp: reservado_def es_espacio_def)

lemma set_colapsar_espacios: "set (colapsar_espacios s) \<subseteq> insert 32 (set s)"
proof (induction s rule: colapsar_espacios.induct)
  case 1
  show ?case by simp
next
  case (2 c cs)
  show ?case
  proof (cases "es_espacio c")
    case True
    with 2 have "set (colapsar_espacios (dropWhile es_espacio cs)) \<subseteq> insert 32 (set (dropWhile es_espacio cs))"
      by simp
    moreover have "set (dropWhile es_espacio cs) \<subseteq> set cs"
      by (rule set_dropWhileD [THEN subsetI])
    ultimately show ?thesis using True by auto
  next
    case False
    with 2 show ?thesis by auto
  qed
qed

lemma colapsar_espacios_si:
  "es_espacio c \<Longrightarrow> colapsar_espacios (c # cs) = 32 # colapsar_espacios (dropWhile es_espacio cs)"
  by simp

lemma colapsar_espacios_no:
  "\<not> es_espacio c \<Longrightarrow> colapsar_espacios (c # cs) = c # colapsar_espacios cs"
  by simp

lemma espacios_dobles_Cons_no:
  "\<not> es_espacio a \<Longrightarrow> espacios_dobles (a # xs) = espacios_dobles xs"
  by (cases xs) simp_all

lemma colapsar_espacios_hd:
  "colapsar_espacios s = z # zs \<Longrightarrow> es_espacio z \<Longrightarrow> \<exists>y ys. s = y # ys \<and> es_espacio y"
proof (cases s)
  case Nil
  assume "colapsar_espacios s = z # zs"
  with Nil show ?thesis by simp
next
  case (Cons y ys)
  assume a: "colapsar_espacios s = z # zs" and z: "es_espacio z"
  have "es_espacio y"
  proof (rule ccontr)
    assume n: "\<not> es_espacio y"
    with a Cons have "y = z" by (simp add: colapsar_espacios_no)
    with n z show False by simp
  qed
  with Cons show ?thesis by simp
qed

lemma dropWhile_hd_no: "dropWhile P xs = y # ys \<Longrightarrow> \<not> P y"
  using hd_dropWhile [of P xs] by auto

lemma colapsar_espacios_sin_dobles: "\<not> espacios_dobles (colapsar_espacios s)"
proof (induction s rule: colapsar_espacios.induct)
  case 1
  show ?case by simp
next
  case (2 c cs)
  show ?case
  proof (cases "es_espacio c")
    case True
    let ?r = "colapsar_espacios (dropWhile es_espacio cs)"
    from 2 True have ih: "\<not> espacios_dobles ?r" by blast
    have eq: "colapsar_espacios (c # cs) = 32 # ?r"
      using True by (rule colapsar_espacios_si)
    show ?thesis
    proof (cases ?r)
      case Nil
      then show ?thesis unfolding eq by simp
    next
      case (Cons z zs)
      have "\<not> es_espacio z"
      proof
        assume "es_espacio z"
        with Cons obtain y ys where y: "dropWhile es_espacio cs = y # ys" "es_espacio y"
          using colapsar_espacios_hd [of "dropWhile es_espacio cs" z zs] by blast
        from y(1) have "\<not> es_espacio y" by (rule dropWhile_hd_no)
        with y(2) show False by simp
      qed
      moreover from ih Cons have "\<not> espacios_dobles (z # zs)" by simp
      ultimately have "\<not> espacios_dobles (32 # z # zs)" by simp
      then show ?thesis unfolding eq Cons .
    qed
  next
    case False
    with 2 have ih: "\<not> espacios_dobles (colapsar_espacios cs)" by blast
    have eq: "colapsar_espacios (c # cs) = c # colapsar_espacios cs"
      using False by (rule colapsar_espacios_no)
    show ?thesis
      unfolding eq using False ih by (simp add: espacios_dobles_Cons_no)
  qed
qed

lemma espacios_dobles_Cons: "espacios_dobles xs \<Longrightarrow> espacios_dobles (a # xs)"
  by (cases xs) simp_all

lemma espacios_dobles_appendR: "espacios_dobles ys \<Longrightarrow> espacios_dobles (xs @ ys)"
  by (induction xs) (simp_all add: espacios_dobles_Cons)

lemma espacios_dobles_appendL: "espacios_dobles xs \<Longrightarrow> espacios_dobles (xs @ ys)"
proof (induction xs)
  case Nil
  then show ?case by simp
next
  case (Cons a xs)
  show ?case
  proof (cases xs)
    case Nil
    with Cons.prems show ?thesis by simp
  next
    case (Cons b cs)
    with Cons.prems Cons.IH show ?thesis by auto
  qed
qed

lemma espacios_dobles_append:
  "espacios_dobles xs \<or> espacios_dobles ys \<Longrightarrow> espacios_dobles (xs @ ys)"
  using espacios_dobles_appendL espacios_dobles_appendR by blast

lemma strip_infijo: "\<exists>p q. s = p @ strip s @ q"
proof -
  let ?t = "dropWhile es_espacio s"
  let ?u = "dropWhile es_espacio (rev ?t)"
  have "s = takeWhile es_espacio s @ ?t" by simp
  moreover have "rev ?t = takeWhile es_espacio (rev ?t) @ ?u" by simp
  then have "rev (rev ?t) = rev (takeWhile es_espacio (rev ?t) @ ?u)" by simp
  then have "?t = rev ?u @ rev (takeWhile es_espacio (rev ?t))"
    by (simp only: rev_append rev_rev_ident)
  ultimately have "s = takeWhile es_espacio s @ strip s @ rev (takeWhile es_espacio (rev ?t))"
    by (simp add: strip_def)
  then show ?thesis by blast
qed

lemma strip_sin_dobles: "\<not> espacios_dobles s \<Longrightarrow> \<not> espacios_dobles (strip s)"
proof -
  assume a: "\<not> espacios_dobles s"
  obtain p q where s: "s = p @ strip s @ q" using strip_infijo by blast
  show ?thesis
  proof
    assume "espacios_dobles (strip s)"
    then have "espacios_dobles (strip s @ q)" by (simp add: espacios_dobles_append)
    then have "espacios_dobles (p @ strip s @ q)" by (simp add: espacios_dobles_append)
    with s a show False by simp
  qed
qed

lemma take_sin_dobles: "\<not> espacios_dobles s \<Longrightarrow> \<not> espacios_dobles (take n s)"
  using espacios_dobles_append [of "take n s" "drop n s"] by auto

lemma strip_last: "strip s \<noteq> [] \<Longrightarrow> \<not> es_espacio (last (strip s))"
proof -
  assume ne: "strip s \<noteq> []"
  let ?u = "dropWhile es_espacio (rev (dropWhile es_espacio s))"
  from ne have u: "?u \<noteq> []" by (simp add: strip_def)
  then have "\<not> es_espacio (hd ?u)" by (rule hd_dropWhile)
  moreover have "last (strip s) = hd ?u" using u by (simp add: strip_def last_rev)
  ultimately show ?thesis by simp
qed

lemma strip_hd: "strip s \<noteq> [] \<Longrightarrow> \<not> es_espacio (hd (strip s))"
proof -
  assume ne: "strip s \<noteq> []"
  let ?t = "dropWhile es_espacio s"
  let ?u = "dropWhile es_espacio (rev ?t)"
  from ne have u: "?u \<noteq> []" by (simp add: strip_def)
  have t: "?t \<noteq> []"
  proof
    assume "?t = []"
    then have "?u = []" by (simp only: rev.simps dropWhile.simps)
    with u show False by simp
  qed
  have "rev ?t = takeWhile es_espacio (rev ?t) @ ?u" by simp
  then have "last (rev ?t) = last (takeWhile es_espacio (rev ?t) @ ?u)" by simp
  then have "last (rev ?t) = last ?u" using u by (simp only: last_appendR [OF u])
  then have "last ?u = hd ?t" using t by (simp add: last_rev)
  moreover have "\<not> es_espacio (hd ?t)" using t by (rule hd_dropWhile)
  moreover have "hd (strip s) = last ?u" using u by (simp add: strip_def hd_rev)
  ultimately show ?thesis by simp
qed

lemma set_strip: "set (strip s) \<subseteq> set s"
proof -
  obtain p q where "s = p @ strip s @ q" using strip_infijo by blast
  then have "set s = set (p @ strip s @ q)" by simp
  then show ?thesis by (simp only: set_append) blast
qed


lemma limpiar_nombre_archivo_alt:
  "limpiar_nombre_archivo nombre =
     (if nombre_recortado nombre = [] then texto ''certificado_sin_nombre''
      else take 100 (nombre_recortado nombre))"
  by (simp add: limpiar_nombre_archivo_def nombre_recortado_def Let_def)

lemma marcador_props:
  "(\<forall>c \<in> set (texto ''certificado_sin_nombre''). \<not> reservado c \<and> \<not> es_espacio c)"
  by (simp add: texto_def reservado_def es_espacio_def)

lemma marcador_sin_dobles: "\<not> espacios_dobles (texto ''certificado_sin_nombre'')"
  by (simp add: texto_def es_espacio_def)

lemma nombre_recortado_sin_reservados: "c \<in> set (nombre_recortado nombre) \<Longrightarrow> \<not> reservado c"
proof -
  assume "c \<in> set (nombre_recortado nombre)"
  then have "c \<in> set (colapsar_espacios (quitar_reservados nombre))"
    using set_strip unfolding nombre_recortado_def by blast
  then have "c = 32 \<or> c \<in> set (quitar_reservados nombre)"
    using set_colapsar_espacios by blast
  then show ?thesis
    by (auto simp: quitar_reservados_def reservado_def)
qed

lemma nombre_recortado_sin_dobles: "\<not> espacios_dobles (nombre_recortado nombre)"
  unfolding nombre_recortado_def
  by (rule strip_sin_dobles) (rule colapsar_espacios_sin_dobles)

text \<open>
  Claim C1, as the code has it. For every input string, the result of
  \<open>limpiar_nombre_archivo\<close> contains no reserved character, has no two adjacent whitespace
  characters, is not empty, does not start with whitespace, and has at most 100 characters.
  It does not end with whitespace whenever the trimmed string had at most 100 characters
  (the cut at 100 comes after the trimming). It is the placeholder
  \<open>certificado_sin_nombre\<close> when the trimmed string is empty, and the first 100 characters
  of the trimmed string otherwise.
\<close>

theorem limpiar_nombre_archivo_saneado:
  "(\<forall>c \<in> set (limpiar_nombre_archivo nombre). \<not> reservado c) \<and>
   \<not> espacios_dobles (limpiar_nombre_archivo nombre) \<and>
   limpiar_nombre_archivo nombre \<noteq> [] \<and>
   \<not> es_espacio (hd (limpiar_nombre_archivo nombre)) \<and>
   length (limpiar_nombre_archivo nombre) \<le> 100 \<and>
   (length (nombre_recortado nombre) \<le> 100 \<longrightarrow>
      \<not> es_espacio (last (limpiar_nombre_archivo nombre))) \<and>
   (nombre_recortado nombre = [] \<longrightarrow>
      limpiar_nombre_archivo nombre = texto ''certificado_sin_nombre'') \<and>
   (nombre_recortado nombre \<noteq> [] \<longrightarrow>
      limpiar_nombre_archivo nombre = take 100 (nombre_recortado nombre))"
proof (cases "nombre_recortado nombre = []")
  case True
  then have eq: "limpiar_nombre_archivo nombre = texto ''certificado_sin_nombre''"
    by (simp add: limpiar_nombre_archivo_alt)
  show ?thesis
    unfolding eq using True marcador_props marcador_sin_dobles
    by (simp add: texto_def es_espacio_def)
next
  case False
  let ?r = "nombre_recortado nombre"
  have eq: "limpiar_nombre_archivo nombre = take 100 ?r"
    using False by (simp add: limpiar_nombre_archivo_alt)
  have a: "\<forall>c \<in> set (take 100 ?r). \<not> reservado c"
    using nombre_recortado_sin_reservados by (blast dest: in_set_takeD)
  have b: "\<not> espacios_dobles (take 100 ?r)"
    by (rule take_sin_dobles) (rule nombre_recortado_sin_dobles)
  have c: "take 100 ?r \<noteq> []" using False by simp
  have "\<not> es_espacio (hd ?r)"
    using False strip_hd unfolding nombre_recortado_def by blast
  then have d: "\<not> es_espacio (hd (take 100 ?r))" using False by (cases ?r) simp_all
  have e: "length (take 100 ?r) \<le> 100" by simp
  have f: "length ?r \<le> 100 \<longrightarrow> \<not> es_espacio (last (take 100 ?r))"
    using False strip_last unfolding nombre_recortado_def by auto
  show ?thesis
    unfolding eq using False a b c d e f by blast
qed


lemma colapsar_espacios_replicate:
  "\<not> es_espacio a \<Longrightarrow> colapsar_espacios (replicate n a @ s) = replicate n a @ colapsar_espacios s"
  by (induction n) (simp_all add: colapsar_espacios_no)

lemma strip_extremos:
  "\<not> es_espacio a \<Longrightarrow> \<not> es_espacio b \<Longrightarrow> strip (a # s @ [b]) = a # s @ [b]"
  by (simp add: strip_def)

lemma nombre_recortado_largo:
  "nombre_recortado (replicate 99 97 @ [32, 98]) = replicate 99 97 @ [32, 98]"
proof -
  have a: "\<not> es_espacio 97" and b: "\<not> es_espacio 98"
    by (simp_all add: es_espacio_def)
  have "quitar_reservados (replicate 99 97 @ [32, 98]) = replicate 99 97 @ [32, 98]"
    by (simp add: quitar_reservados_def reservado_def)
  moreover have "colapsar_espacios (replicate 99 97 @ [32, 98]) = replicate 99 97 @ [32, 98]"
    using a b by (simp add: colapsar_espacios_replicate colapsar_espacios_no colapsar_espacios_si es_espacio_32)
  moreover have "replicate 99 97 @ [32, 98] = (97::nat) # (replicate 98 97 @ [32]) @ [98]"
    using replicate_Suc [of 98 "97::nat"] by simp
  then have "strip (replicate 99 97 @ [32, 98]) = replicate 99 97 @ [32, 98]"
    using strip_extremos [OF a b, of "replicate 98 97 @ [32]"] by simp
  ultimately show ?thesis by (simp add: nombre_recortado_def)
qed

text \<open>
  The theorem at the inputs \<open>" a<b  c "\<close> and \<open>""\<close>: the first is cleaned to \<open>"ab c"\<close>,
  which is short enough to keep its trimmed end, the second gives the placeholder.
\<close>

theorem limpiar_nombre_archivo_saneado_witness:
  "limpiar_nombre_archivo (texto '' a<b  c '') = texto ''ab c'' \<and>
   length (nombre_recortado (texto '' a<b  c '')) \<le> 100 \<and>
   \<not> es_espacio (last (limpiar_nombre_archivo (texto '' a<b  c ''))) \<and>
   nombre_recortado [] = [] \<and>
   limpiar_nombre_archivo [] = texto ''certificado_sin_nombre''"
proof -
  have r: "nombre_recortado (texto '' a<b  c '') = texto ''ab c''"
    by (simp add: nombre_recortado_def strip_def quitar_reservados_def reservado_def
        es_espacio_def texto_def)
  have e: "nombre_recortado [] = []"
    by (simp add: nombre_recortado_def strip_def quitar_reservados_def)
  note t = limpiar_nombre_archivo_saneado [of "texto '' a<b  c ''"]
  note u = limpiar_nombre_archivo_saneado [of "[]"]
  from t r have l: "limpiar_nombre_archivo (texto '' a<b  c '') = texto ''ab c''"
    by (simp add: texto_def)
  from r have n: "length (nombre_recortado (texto '' a<b  c '')) \<le> 100"
    by (simp add: texto_def)
  with t have q: "\<not> es_espacio (last (limpiar_nombre_archivo (texto '' a<b  c '')))"
    by blast
  from u e have m: "limpiar_nombre_archivo [] = texto ''certificado_sin_nombre''"
    by blast
  from l n q e m show ?thesis by blast
qed

text \<open>
  Claim C1 as stated fails twice. The name made of 99 letters \<open>a\<close>, a space and \<open>b\<close> is
  101 characters long after trimming, and the cut at 100 leaves the space at the end. And the
  input \<open>certificado_sin_nombre\<close> is returned as it is: the result is the placeholder
  although the cleaned string was not empty.
\<close>

theorem limpiar_nombre_archivo_counterexample:
  "es_espacio (last (limpiar_nombre_archivo (replicate 99 97 @ [32, 98]))) \<and>
   limpiar_nombre_archivo (texto ''certificado_sin_nombre'') = texto ''certificado_sin_nombre'' \<and>
   nombre_recortado (texto ''certificado_sin_nombre'') \<noteq> []"
proof -
  have "limpiar_nombre_archivo (replicate 99 97 @ [32, 98]) = replicate 99 97 @ [32]"
    by (simp add: limpiar_nombre_archivo_alt nombre_recortado_largo)
  then have "es_espacio (last (limpiar_nombre_archivo (replicate 99 97 @ [32, 98])))"
    by (simp add: es_espacio_32)
  moreover have "nombre_recortado (texto ''certificado_sin_nombre'') = texto ''certificado_sin_nombre''"
    by (simp add: nombre_recortado_def strip_def quitar_reservados_def reservado_def
        es_espacio_def texto_def)
  ultimately show ?thesis
    by (simp add: limpiar_nombre_archivo_alt) (simp add: texto_def)
qed

section \<open>The loop over the pages\<close>

lemma manejar_duplicados_desde:
  "manejar_duplicados fs p n s a c \<notin> set fs \<and>
   (a \<notin> set fs \<longrightarrow> manejar_duplicados fs p n s a c = a) \<and>
   (a \<in> set fs \<longrightarrow>
      (\<exists>k\<ge>c. manejar_duplicados fs p n s a c = nombre_con_contador p n k s \<and>
             (\<forall>j. c \<le> j \<and> j < k \<longrightarrow> nombre_con_contador p n j s \<in> set fs)))"
proof (induction fs p n s a c rule: manejar_duplicados.induct)
  case (1 fs p n s a c)
  show ?case
  proof (cases "a \<in> set fs")
    case False
    then show ?thesis by (simp add: manejar_duplicados.simps)
  next
    case True
    let ?r = "manejar_duplicados fs p n s (nombre_con_contador p n c s) (c + 1)"
    have eq: "manejar_duplicados fs p n s a c = ?r"
      using True by (subst manejar_duplicados.simps) simp
    note ih = "1.IH" [OF True]
    show ?thesis
    proof (cases "nombre_con_contador p n c s \<in> set fs")
      case False
      with ih have "?r = nombre_con_contador p n c s" by blast
      moreover from ih have "?r \<notin> set fs" by blast
      ultimately show ?thesis unfolding eq using True by auto
    next
      case c: True
      with ih obtain k where k: "c + 1 \<le> k" "?r = nombre_con_contador p n k s"
        "\<forall>j. c + 1 \<le> j \<and> j < k \<longrightarrow> nombre_con_contador p n j s \<in> set fs"
        by blast
      have "\<forall>j. c \<le> j \<and> j < k \<longrightarrow> nombre_con_contador p n j s \<in> set fs"
      proof (intro allI impI)
        fix j assume j: "c \<le> j \<and> j < k"
        show "nombre_con_contador p n j s \<in> set fs"
        proof (cases "j = c")
          case True
          with c show ?thesis by simp
        next
          case False
          with j have "c + 1 \<le> j \<and> j < k" by simp
          with k(3) show ?thesis by blast
        qed
      qed
      moreover from k(1) have "c \<le> k" by simp
      moreover from ih have "?r \<notin> set fs" by blast
      ultimately show ?thesis unfolding eq using True k(2) by blast
    qed
  qed
qed

lemma procesar_pagina_nombre:
  assumes "nombre_de_pagina ent lista_nombres patrones i pag = Inr (nombre, org)"
    and "r = manejar_duplicados (salida m) prefijo (limpiar_nombre_archivo nombre) sufijo
               (prefijo @ limpiar_nombre_archivo nombre @ sufijo @ texto ''.pdf'') 1"
  shows "procesar_pagina ent ruta_pdf lista_nombres patrones prefijo sufijo i pag m res =
     (case guardar ent ruta_pdf i r of
        None \<Rightarrow>
          (m\<lparr>salida := r # salida m\<rparr>,
           Inr (res\<lparr>exitosos := exitosos res @
                  [\<lparr>e_pagina = i + 1, e_nombre = nombre, e_archivo = r, e_origen = org\<rparr>]\<rparr>))
      | Some msg \<Rightarrow>
          (m\<lparr>abiertos := Nuevo i # abiertos m\<rparr>,
           Inr (res\<lparr>errores := errores res @ [\<lparr>f_pagina = i + 1, f_error = msg\<rparr>]\<rparr>)))"
  using assms by (simp add: procesar_pagina_def Let_def split: option.split)

lemma procesar_pagina_excepcion:
  assumes "nombre_de_pagina ent lista_nombres patrones i pag = Inl e"
  shows "procesar_pagina ent ruta_pdf lista_nombres patrones prefijo sufijo i pag m res = (m, Inl e)"
  using assms by (simp add: procesar_pagina_def)

lemma str_nat_digito: "n < 10 \<Longrightarrow> str_nat n = [48 + n]"
  by (subst str_nat.simps) simp

lemma limpiar_John_Doe: "limpiar_nombre_archivo (texto ''John_Doe'') = texto ''John_Doe''"
  by (simp add: limpiar_nombre_archivo_def quitar_reservados_def reservado_def strip_def
      es_espacio_def texto_def)

lemma formato_03d_1: "formato_03d 1 = texto ''001''"
  by (simp add: formato_03d_def str_nat_digito texto_def numeral_eq_Suc)

lemma formato_03d_Suc_0: "formato_03d (Suc 0) = texto ''001''"
  using formato_03d_1 by simp

lemma procesar_pagina_casos:
  assumes "procesar_pagina ent ruta_pdf lista_nombres patrones prefijo sufijo i pag m res
             = (m', Inr res')"
  shows "(\<exists>e. res' = res\<lparr>exitosos := exitosos res @ [e]\<rparr> \<and> e_pagina e = i + 1) \<or>
         (\<exists>f. res' = res\<lparr>errores := errores res @ [f]\<rparr> \<and> f_pagina f = i + 1)"
proof (cases "nombre_de_pagina ent lista_nombres patrones i pag")
  case (Inl e)
  with assms show ?thesis by (simp add: procesar_pagina_excepcion)
next
  case (Inr x)
  obtain nombre org where x: "x = (nombre, org)" by (cases x)
  let ?r = "manejar_duplicados (salida m) prefijo (limpiar_nombre_archivo nombre) sufijo
               (prefijo @ limpiar_nombre_archivo nombre @ sufijo @ texto ''.pdf'') 1"
  note p = procesar_pagina_nombre [OF Inr [unfolded x] refl,
      where m = m and prefijo = prefijo and sufijo = sufijo and ruta_pdf = ruta_pdf and res = res]
  show ?thesis
  proof (cases "guardar ent ruta_pdf i ?r")
    case None
    with p assms show ?thesis by auto
  next
    case (Some msg)
    with p assms show ?thesis by auto
  qed
qed

lemma paginas_repartidas_paso:
  assumes "procesar_pagina ent ruta_pdf lista_nombres patrones prefijo sufijo i pag m res
             = (m', Inr res')"
    and "paginas_repartidas i res"
  shows "paginas_repartidas (i + 1) res' \<and> total res' = total res"
proof -
  from assms(2) have in_e: "\<forall>x \<in> set (map e_pagina (exitosos res)). x \<le> i"
    and in_f: "\<forall>x \<in> set (map f_pagina (errores res)). x \<le> i"
    unfolding paginas_repartidas_def by auto
  have u: "{1..i + 1} = insert (i + 1) {1..i}" by auto
  from procesar_pagina_casos [OF assms(1)] show ?thesis
  proof
    assume "\<exists>e. res' = res\<lparr>exitosos := exitosos res @ [e]\<rparr> \<and> e_pagina e = i + 1"
    then obtain e where e: "res' = res\<lparr>exitosos := exitosos res @ [e]\<rparr>" "e_pagina e = i + 1"
      by blast
    from assms(2) in_e in_f show ?thesis
      unfolding paginas_repartidas_def e(1) u
      by (auto simp: sorted_wrt_append e(2))
  next
    assume "\<exists>f. res' = res\<lparr>errores := errores res @ [f]\<rparr> \<and> f_pagina f = i + 1"
    then obtain f where f: "res' = res\<lparr>errores := errores res @ [f]\<rparr>" "f_pagina f = i + 1"
      by blast
    from assms(2) in_e in_f show ?thesis
      unfolding paginas_repartidas_def f(1) u
      by (auto simp: sorted_wrt_append f(2))
  qed
qed

lemma paginas_repartidas_bucle:
  assumes "bucle_paginas ent ruta_pdf lista_nombres patrones prefijo sufijo i pags m res
             = (m', Inr res')"
    and "paginas_repartidas i res"
  shows "paginas_repartidas (i + length pags) res' \<and> total res' = total res"
  using assms
proof (induction pags arbitrary: i m res)
  case Nil
  then show ?case by simp
next
  case (Cons pag pags)
  obtain m1 x where p: "procesar_pagina ent ruta_pdf lista_nombres patrones prefijo sufijo i pag m res
      = (m1, x)" by (cases "procesar_pagina ent ruta_pdf lista_nombres patrones prefijo sufijo i pag m res")
  show ?case
  proof (cases x)
    case (Inl e)
    with p Cons.prems(1) show ?thesis by simp
  next
    case (Inr res1)
    with p Cons.prems(1)
    have b: "bucle_paginas ent ruta_pdf lista_nombres patrones prefijo sufijo (i + 1) pags m1 res1
               = (m', Inr res')" by simp
    from paginas_repartidas_paso [OF p [unfolded Inr] Cons.prems(2)]
    have s: "paginas_repartidas (i + 1) res1" "total res1 = total res" by simp_all
    from Cons.IH [OF b s(1)] s(2) show ?thesis by simp
  qed
qed

lemma formato_03d_2: "formato_03d 2 = texto ''002''"
  by (simp add: formato_03d_def str_nat_digito texto_def numeral_eq_Suc)

lemma formato_03d_SS0: "formato_03d (Suc (Suc 0)) = texto ''002''"
  using formato_03d_2 by (simp add: numeral_2_eq_2)

lemma manejar_duplicados_libre:
  "a \<notin> set fs \<Longrightarrow> manejar_duplicados fs p n s a c = a"
  by (subst manejar_duplicados.simps) simp

lemma limpiar_certificado_001:
  "limpiar_nombre_archivo (texto ''certificado_'' @ texto ''001'') = texto ''certificado_001''"
  by (simp add: limpiar_nombre_archivo_def quitar_reservados_def reservado_def strip_def
      es_espacio_def texto_def)

lemma limpiar_certificado_002:
  "limpiar_nombre_archivo (texto ''certificado_'' @ texto ''002'') = texto ''certificado_002''"
  by (simp add: limpiar_nombre_archivo_def quitar_reservados_def reservado_def strip_def
      es_espacio_def texto_def)

lemma separar_dos_paginas:
  "separar_certificados
     entorno_dos_paginas
     mundo_vacio (texto ''c.pdf'') None [] [] []
   = (\<lparr>salida = [texto ''certificado_001.pdf''], entrada = None, abiertos = [Nuevo 1]\<rparr>,
      Inr \<lparr>exitosos = [\<lparr>e_pagina = 1, e_nombre = texto ''certificado_001'',
                         e_archivo = texto ''certificado_001.pdf'', e_origen = Generado\<rparr>],
           errores = [\<lparr>f_pagina = 2, f_error = texto ''cannot save''\<rparr>],
           total = 2, pdf_origen = texto ''c.pdf''\<rparr>)"
  by (simp add: separar_certificados_def procesar_pagina_def nombre_de_pagina_def
      entorno_dos_paginas_def entorno_de_def mundo_vacio_def Let_def formato_03d_Suc_0 formato_03d_SS0
      limpiar_certificado_001 limpiar_certificado_002 manejar_duplicados_libre)
     (simp add: texto_def)

lemma bucle_paginas_exitos:
  assumes "bucle_paginas ent ruta_pdf lista_nombres patrones prefijo sufijo j pags m res
             = (m', Inr res')"
    and "pags = drop j documento"
  shows "\<exists>nuevos. exitosos res' = exitosos res @ nuevos \<and>
           salida m' = rev (map e_archivo nuevos) @ salida m \<and>
           exitos_correctos ent ruta_pdf lista_nombres patrones prefijo sufijo documento
             (salida m) nuevos"
  using assms
proof (induction pags arbitrary: j m res)
  case Nil
  then show ?case by simp
next
  case (Cons pag pags)
  from Cons.prems(2) have j: "j < length documento"
    by (metis drop_all list.distinct(1) not_le)
  with Cons.prems(2) have pag: "pag = documento ! j" and pags: "pags = drop (j + 1) documento"
    by (simp_all add: Cons_nth_drop_Suc [symmetric])
  show ?case
  proof (cases "nombre_de_pagina ent lista_nombres patrones j pag")
    case (Inl e)
    with Cons.prems(1) show ?thesis by (simp add: procesar_pagina_excepcion)
  next
    case (Inr x)
    obtain nombre org where x: "x = (nombre, org)" by (cases x)
    let ?r = "manejar_duplicados (salida m) prefijo (limpiar_nombre_archivo nombre) sufijo
               (prefijo @ limpiar_nombre_archivo nombre @ sufijo @ texto ''.pdf'') 1"
    note p = procesar_pagina_nombre [OF Inr [unfolded x] refl,
        where m = m and prefijo = prefijo and sufijo = sufijo and ruta_pdf = ruta_pdf and res = res]
    show ?thesis
    proof (cases "guardar ent ruta_pdf j ?r")
      case None
      let ?e = "\<lparr>e_pagina = j + 1, e_nombre = nombre, e_archivo = ?r, e_origen = org\<rparr>"
      let ?m1 = "m\<lparr>salida := ?r # salida m\<rparr>"
      let ?res1 = "res\<lparr>exitosos := exitosos res @ [?e]\<rparr>"
      from p None have q: "procesar_pagina ent ruta_pdf lista_nombres patrones prefijo sufijo j pag
          m res = (?m1, Inr ?res1)" by simp
      with Cons.prems(1) have b: "bucle_paginas ent ruta_pdf lista_nombres patrones prefijo sufijo
          (j + 1) pags ?m1 ?res1 = (m', Inr res')" by simp
      from Cons.IH [OF b pags] obtain nuevos where n:
        "exitosos res' = exitosos ?res1 @ nuevos"
        "salida m' = rev (map e_archivo nuevos) @ salida ?m1"
        "exitos_correctos ent ruta_pdf lista_nombres patrones prefijo sufijo documento
           (salida ?m1) nuevos"
        by blast
      have "exitosos res' = exitosos res @ (?e # nuevos)" using n(1) by simp
      moreover have "salida m' = rev (map e_archivo (?e # nuevos)) @ salida m"
        using n(2) by simp
      moreover have "exitos_correctos ent ruta_pdf lista_nombres patrones prefijo sufijo documento
           (salida m) (?e # nuevos)"
        using n(3) j Inr x None pag by simp
      ultimately show ?thesis by blast
    next
      case (Some msg)
      let ?m1 = "m\<lparr>abiertos := Nuevo j # abiertos m\<rparr>"
      let ?res1 = "res\<lparr>errores := errores res @ [\<lparr>f_pagina = j + 1, f_error = msg\<rparr>]\<rparr>"
      from p Some have q: "procesar_pagina ent ruta_pdf lista_nombres patrones prefijo sufijo j pag
          m res = (?m1, Inr ?res1)" by simp
      with Cons.prems(1) have b: "bucle_paginas ent ruta_pdf lista_nombres patrones prefijo sufijo
          (j + 1) pags ?m1 ?res1 = (m', Inr res')" by simp
      from Cons.IH [OF b pags] show ?thesis by simp
    qed
  qed
qed

lemma separar_certificados_exitos:
  assumes "separar_certificados ent m ruta_pdf lista_nombres patrones prefijo sufijo
             = (m', Inr res)"
  shows "\<exists>documento. pdf_en ent ruta_pdf = Pdf documento \<and>
           salida m' = rev (map e_archivo (exitosos res)) @ salida m \<and>
           exitos_correctos ent ruta_pdf lista_nombres patrones prefijo sufijo documento
             (salida m) (exitosos res)"
proof (cases "pdf_en ent ruta_pdf")
  case NoExiste
  with assms show ?thesis by (simp add: separar_certificados_def)
next
  case (Ilegible msg)
  with assms show ?thesis by (simp add: separar_certificados_def)
next
  case (Pdf documento)
  let ?m0 = "m\<lparr>abiertos := Documento # abiertos m\<rparr>"
  let ?r0 = "\<lparr>exitosos = [], errores = [], total = length documento,
              pdf_origen = path_name ent ruta_pdf\<rparr>"
  obtain m1 x where b: "bucle_paginas ent ruta_pdf lista_nombres patrones prefijo sufijo 0
      documento ?m0 ?r0 = (m1, x)"
    by (cases "bucle_paginas ent ruta_pdf lista_nombres patrones prefijo sufijo 0 documento ?m0 ?r0")
  from assms Pdf b have x: "x = Inr res"
    by (cases x) (simp_all add: separar_certificados_def Let_def)
  from assms Pdf b x have m': "m' = m1\<lparr>abiertos := remove1 Documento (abiertos m1)\<rparr>"
    by (simp add: separar_certificados_def Let_def)
  have d: "documento = drop 0 documento" by simp
  from bucle_paginas_exitos [OF b [unfolded x] d] obtain nuevos where n:
    "exitosos res = exitosos ?r0 @ nuevos"
    "salida m1 = rev (map e_archivo nuevos) @ salida ?m0"
    "exitos_correctos ent ruta_pdf lista_nombres patrones prefijo sufijo documento
       (salida ?m0) nuevos"
    by blast
  from n(1) have e: "nuevos = exitosos res" by simp
  from n(2,3) m' Pdf show ?thesis unfolding e by simp
qed

lemma exitos_correctos_miembro:
  assumes "exitos_correctos ent ruta_pdf lista_nombres patrones prefijo sufijo documento fs es"
    and "e \<in> set es"
  shows "1 \<le> e_pagina e \<and> e_pagina e \<le> length documento \<and>
     nombre_de_pagina ent lista_nombres patrones (e_pagina e - 1) (documento ! (e_pagina e - 1))
       = Inr (e_nombre e, e_origen e) \<and>
     guardar ent ruta_pdf (e_pagina e - 1) (e_archivo e) = None"
  using assms
proof (induction es arbitrary: fs)
  case Nil
  then show ?case by simp
next
  case (Cons a es)
  from Cons.prems(1)
  have a: "1 \<le> e_pagina a \<and> e_pagina a \<le> length documento \<and>
     nombre_de_pagina ent lista_nombres patrones (e_pagina a - 1) (documento ! (e_pagina a - 1))
       = Inr (e_nombre a, e_origen a) \<and>
     guardar ent ruta_pdf (e_pagina a - 1) (e_archivo a) = None"
    and r: "exitos_correctos ent ruta_pdf lista_nombres patrones prefijo sufijo documento
          (e_archivo a # fs) es"
    unfolding exitos_correctos.simps by blast+
  show ?case
  proof (cases "e = a")
    case True
    with a show ?thesis by simp
  next
    case False
    with Cons.prems(2) have "e \<in> set es" by simp
    from Cons.IH [OF r this] show ?thesis .
  qed
qed

lemma exitos_correctos_archivo:
  assumes "exitos_correctos ent ruta_pdf lista_nombres patrones prefijo sufijo documento fs
             (xs @ e # ys)"
  shows "e_archivo e = manejar_duplicados (rev (map e_archivo xs) @ fs) prefijo
           (limpiar_nombre_archivo (e_nombre e)) sufijo
           (prefijo @ limpiar_nombre_archivo (e_nombre e) @ sufijo @ texto ''.pdf'') 1"
  using assms
proof (induction xs arbitrary: fs)
  case Nil
  then show ?case unfolding append_Nil exitos_correctos.simps by simp
next
  case (Cons a xs)
  from Cons.prems
  have "exitos_correctos ent ruta_pdf lista_nombres patrones prefijo sufijo documento
          (e_archivo a # fs) (xs @ e # ys)"
    unfolding append_Cons exitos_correctos.simps by blast
  from Cons.IH [OF this] show ?case by simp
qed

lemma exitos_correctos_distintos:
  assumes "exitos_correctos ent ruta_pdf lista_nombres patrones prefijo sufijo documento fs es"
  shows "distinct (map e_archivo es) \<and> set (map e_archivo es) \<inter> set fs = {}"
  using assms
proof (induction es arbitrary: fs)
  case Nil
  show ?case by simp
next
  case (Cons e es)
  from Cons.prems have a: "e_archivo e = manejar_duplicados fs prefijo
      (limpiar_nombre_archivo (e_nombre e)) sufijo
      (prefijo @ limpiar_nombre_archivo (e_nombre e) @ sufijo @ texto ''.pdf'') 1"
    and r: "exitos_correctos ent ruta_pdf lista_nombres patrones prefijo sufijo documento
      (e_archivo e # fs) es"
    unfolding exitos_correctos.simps by blast+
  from manejar_duplicados_desde [of fs prefijo "limpiar_nombre_archivo (e_nombre e)" sufijo
      "prefijo @ limpiar_nombre_archivo (e_nombre e) @ sufijo @ texto ''.pdf''" 1] a
  have n: "e_archivo e \<notin> set fs" by simp
  from Cons.IH [OF r] have d: "distinct (map e_archivo es)"
    and i: "set (map e_archivo es) \<inter> set (e_archivo e # fs) = {}" by simp_all
  from i have "e_archivo e \<notin> set (map e_archivo es)" and "set (map e_archivo es) \<inter> set fs = {}"
    by auto
  with d n show ?case by auto
qed

lemma exitos_correctos_eleccion:
  assumes "exitos_correctos ent ruta_pdf lista_nombres patrones prefijo sufijo documento fs
             (xs @ e # ys)"
    and "nl = limpiar_nombre_archivo (e_nombre e)"
    and "base = prefijo @ nl @ sufijo @ texto ''.pdf''"
    and "F = set (map e_archivo xs) \<union> set fs"
  shows "e_archivo e \<notin> F \<and>
     (base \<notin> F \<longrightarrow> e_archivo e = base) \<and>
     (base \<in> F \<longrightarrow>
        (\<exists>k\<ge>1. e_archivo e = nombre_con_contador prefijo nl k sufijo \<and>
           (\<forall>j. 1 \<le> j \<and> j < k \<longrightarrow> nombre_con_contador prefijo nl j sufijo \<in> F)))"
proof -
  have F: "F = set (rev (map e_archivo xs) @ fs)" using assms(4) by simp
  have a: "e_archivo e = manejar_duplicados (rev (map e_archivo xs) @ fs) prefijo nl sufijo base 1"
    using exitos_correctos_archivo [OF assms(1)] assms(2,3) by simp
  from manejar_duplicados_desde [of "rev (map e_archivo xs) @ fs" prefijo nl sufijo base 1]
  show ?thesis unfolding F a by blast
qed

lemma exitos_correctos_mismo_nombre:
  assumes "exitos_correctos ent ruta_pdf lista_nombres patrones prefijo sufijo documento fs
             (xs @ e1 # ys @ e2 # zs)"
    and "limpiar_nombre_archivo (e_nombre e1) = limpiar_nombre_archivo (e_nombre e2)"
    and "nl = limpiar_nombre_archivo (e_nombre e2)"
  shows "\<exists>k\<ge>1. e_archivo e2 = nombre_con_contador prefijo nl k sufijo \<and>
     (e_archivo e1 = prefijo @ nl @ sufijo @ texto ''.pdf'' \<or>
      (\<exists>k1. 1 \<le> k1 \<and> k1 < k \<and> e_archivo e1 = nombre_con_contador prefijo nl k1 sufijo))"
proof -
  let ?base = "prefijo @ nl @ sufijo @ texto ''.pdf''"
  let ?F1 = "set (map e_archivo xs) \<union> set fs"
  let ?F2 = "set (map e_archivo (xs @ e1 # ys)) \<union> set fs"
  have nl1: "nl = limpiar_nombre_archivo (e_nombre e1)" using assms(2,3) by simp
  note c1 = exitos_correctos_eleccion [OF assms(1) nl1 refl refl]
  have s: "xs @ e1 # ys @ e2 # zs = (xs @ e1 # ys) @ e2 # zs" by simp
  note c2 = exitos_correctos_eleccion [OF assms(1) [unfolded s] assms(3) refl refl]
  have sub: "?F1 \<subseteq> ?F2" and in2: "e_archivo e1 \<in> ?F2" by auto
  have b2: "?base \<in> ?F2"
  proof (cases "?base \<in> ?F1")
    case True
    with sub show ?thesis by blast
  next
    case False
    with c1 have "e_archivo e1 = ?base" by blast
    with in2 show ?thesis by simp
  qed
  with c2 obtain k where k: "1 \<le> k" "e_archivo e2 = nombre_con_contador prefijo nl k sufijo"
    "\<forall>j. 1 \<le> j \<and> j < k \<longrightarrow> nombre_con_contador prefijo nl j sufijo \<in> ?F2"
    by blast
  from c2 have n2: "e_archivo e2 \<notin> ?F2" by blast
  have "e_archivo e1 = ?base \<or>
      (\<exists>k1. 1 \<le> k1 \<and> k1 < k \<and> e_archivo e1 = nombre_con_contador prefijo nl k1 sufijo)"
  proof (cases "?base \<in> ?F1")
    case False
    with c1 show ?thesis by blast
  next
    case True
    with c1 obtain k1 where k1: "1 \<le> k1" "e_archivo e1 = nombre_con_contador prefijo nl k1 sufijo"
      "\<forall>j. 1 \<le> j \<and> j < k1 \<longrightarrow> nombre_con_contador prefijo nl j sufijo \<in> ?F1"
      by blast
    have "k \<noteq> k1"
    proof
      assume "k = k1"
      with k(2) k1(2) have "e_archivo e2 = e_archivo e1" by simp
      with in2 n2 show False by simp
    qed
    moreover have "\<not> k < k1"
    proof
      assume "k < k1"
      with k(1) k1(3) have "nombre_con_contador prefijo nl k sufijo \<in> ?F1" by blast
      with sub k(2) have "e_archivo e2 \<in> ?F2" by auto
      with n2 show False by simp
    qed
    ultimately have "k1 < k" by simp
    with k1(1,2) show ?thesis by blast
  qed
  with k(1,2) show ?thesis by blast
qed

lemma manejar_duplicados_ocupado:
  "a \<in> set fs \<Longrightarrow>
   manejar_duplicados fs p n s a c
     = manejar_duplicados fs p n s (nombre_con_contador p n c s) (c + 1)"
  by (subst manejar_duplicados.simps) simp

lemma limpiar_Ana_Ruiz: "limpiar_nombre_archivo (texto ''Ana Ruiz'') = texto ''Ana Ruiz''"
  by (simp add: limpiar_nombre_archivo_def quitar_reservados_def reservado_def strip_def
      es_espacio_def texto_def)

lemma entorno_escenario_simps:
  "pdf_en entorno_escenario ruta
     = Pdf [texto ''Otorga a: Jane Doe'', texto ''Sin nombre'', texto ''Certifica a: Ana Ruiz'']"
  "guardar entorno_escenario ruta i f = None"
  "re_search entorno_escenario = buscar_escenario"
  "path_name entorno_escenario ruta = ruta"
  by (simp_all add: entorno_escenario_def entorno_de_def)

lemma extraer_escenario:
  "extraer_nombre_de_pagina buscar_escenario (texto ''Otorga a: Jane Doe'') [texto ''a: (.+)'']
     = Inr (Some (texto ''Jane Doe''))"
  "extraer_nombre_de_pagina buscar_escenario (texto ''Sin nombre'') [texto ''a: (.+)'']
     = Inr None"
  "extraer_nombre_de_pagina buscar_escenario (texto ''Certifica a: Ana Ruiz'') [texto ''a: (.+)'']
     = Inr (Some (texto ''Ana Ruiz''))"
  by (simp_all add: buscar_escenario_def texto_def strip_def es_espacio_def primera_linea_def)

lemma manejar_John_Doe_1:
  "manejar_duplicados [texto ''John_Doe.pdf''] [] (texto ''John_Doe'') []
     (texto ''John_Doe'' @ texto ''.pdf'') (Suc 0) = texto ''John_Doe_1.pdf''"
proof -
  have b: "texto ''John_Doe'' @ texto ''.pdf'' = texto ''John_Doe.pdf''"
    by (simp add: texto_def)
  have c1: "nombre_con_contador [] (texto ''John_Doe'') 1 [] = texto ''John_Doe_1.pdf''"
    by (simp add: nombre_con_contador_def str_nat_digito texto_def)
  have d: "texto ''John_Doe_1.pdf'' \<noteq> texto ''John_Doe.pdf''" by (simp add: texto_def)
  have "manejar_duplicados [texto ''John_Doe.pdf''] [] (texto ''John_Doe'') []
          (texto ''John_Doe.pdf'') 1
      = manejar_duplicados [texto ''John_Doe.pdf''] [] (texto ''John_Doe'') []
          (nombre_con_contador [] (texto ''John_Doe'') 1 []) (1 + 1)"
    by (rule manejar_duplicados_ocupado) simp
  also have "\<dots> = nombre_con_contador [] (texto ''John_Doe'') 1 []"
    by (rule manejar_duplicados_libre) (unfold c1, simp add: d)
  finally show ?thesis unfolding c1 b by simp
qed

lemma manejar_John_Doe_2:
  "manejar_duplicados [texto ''John_Doe_1.pdf'', texto ''John_Doe.pdf''] [] (texto ''John_Doe'') []
     (texto ''John_Doe'' @ texto ''.pdf'') (Suc 0) = texto ''John_Doe_2.pdf''"
proof -
  let ?fs = "[texto ''John_Doe_1.pdf'', texto ''John_Doe.pdf'']"
  have b: "texto ''John_Doe'' @ texto ''.pdf'' = texto ''John_Doe.pdf''"
    by (simp add: texto_def)
  have c1: "nombre_con_contador [] (texto ''John_Doe'') 1 [] = texto ''John_Doe_1.pdf''"
    and c2: "nombre_con_contador [] (texto ''John_Doe'') (1 + 1) [] = texto ''John_Doe_2.pdf''"
    by (simp_all add: nombre_con_contador_def str_nat_digito texto_def)
  have d: "texto ''John_Doe_2.pdf'' \<noteq> texto ''John_Doe.pdf''"
    "texto ''John_Doe_2.pdf'' \<noteq> texto ''John_Doe_1.pdf''" by (simp_all add: texto_def)
  have "manejar_duplicados ?fs [] (texto ''John_Doe'') [] (texto ''John_Doe.pdf'') 1
      = manejar_duplicados ?fs [] (texto ''John_Doe'') []
          (nombre_con_contador [] (texto ''John_Doe'') 1 []) (1 + 1)"
    by (rule manejar_duplicados_ocupado) simp
  also have "\<dots> = manejar_duplicados ?fs [] (texto ''John_Doe'') []
          (nombre_con_contador [] (texto ''John_Doe'') (1 + 1) []) (1 + 1 + 1)"
    by (rule manejar_duplicados_ocupado) (unfold c1, simp)
  also have "\<dots> = nombre_con_contador [] (texto ''John_Doe'') (1 + 1) []"
    by (rule manejar_duplicados_libre) (unfold c2, simp add: d)
  finally show ?thesis unfolding c2 b by simp
qed

lemma manejar_Ana_Ruiz:
  "manejar_duplicados [texto ''John_Doe_2.pdf'', texto ''John_Doe_1.pdf'', texto ''John_Doe.pdf'']
     [] (texto ''Ana Ruiz'') [] (texto ''Ana Ruiz'' @ texto ''.pdf'') (Suc 0)
   = texto ''Ana Ruiz.pdf''"
  by (simp add: manejar_duplicados_libre texto_def)

lemma separar_tres_paginas:
  assumes d: "pdf_en ent ruta_pdf = Pdf [p1, p2, p3]"
    and n1: "nombre_de_pagina ent lista_nombres patrones 0 p1 = Inr (n1, o1)"
    and n2: "nombre_de_pagina ent lista_nombres patrones 1 p2 = Inr (n2, o2)"
    and n3: "nombre_de_pagina ent lista_nombres patrones 2 p3 = Inr (n3, o3)"
    and g: "\<forall>i f. guardar ent ruta_pdf i f = None"
    and f1: "f1 = manejar_duplicados (salida m) prefijo (limpiar_nombre_archivo n1) sufijo
                    (prefijo @ limpiar_nombre_archivo n1 @ sufijo @ texto ''.pdf'') 1"
    and f2: "f2 = manejar_duplicados (f1 # salida m) prefijo (limpiar_nombre_archivo n2) sufijo
                    (prefijo @ limpiar_nombre_archivo n2 @ sufijo @ texto ''.pdf'') 1"
    and f3: "f3 = manejar_duplicados (f2 # f1 # salida m) prefijo (limpiar_nombre_archivo n3)
                    sufijo (prefijo @ limpiar_nombre_archivo n3 @ sufijo @ texto ''.pdf'') 1"
  shows "separar_certificados ent m ruta_pdf lista_nombres patrones prefijo sufijo
     = (m\<lparr>salida := f3 # f2 # f1 # salida m\<rparr>,
        Inr \<lparr>exitosos =
               [\<lparr>e_pagina = 1, e_nombre = n1, e_archivo = f1, e_origen = o1\<rparr>,
                \<lparr>e_pagina = 2, e_nombre = n2, e_archivo = f2, e_origen = o2\<rparr>,
                \<lparr>e_pagina = 3, e_nombre = n3, e_archivo = f3, e_origen = o3\<rparr>],
             errores = [], total = 3, pdf_origen = path_name ent ruta_pdf\<rparr>)"
proof -
  let ?m0 = "m\<lparr>abiertos := Documento # abiertos m\<rparr>"
  let ?r0 = "\<lparr>exitosos = [], errores = [], total = 3, pdf_origen = path_name ent ruta_pdf\<rparr>"
  let ?e1 = "\<lparr>e_pagina = 1, e_nombre = n1, e_archivo = f1, e_origen = o1\<rparr>"
  let ?e2 = "\<lparr>e_pagina = 2, e_nombre = n2, e_archivo = f2, e_origen = o2\<rparr>"
  let ?e3 = "\<lparr>e_pagina = 3, e_nombre = n3, e_archivo = f3, e_origen = o3\<rparr>"
  let ?m1 = "?m0\<lparr>salida := f1 # salida m\<rparr>"
  let ?m2 = "?m0\<lparr>salida := f2 # f1 # salida m\<rparr>"
  let ?m3 = "?m0\<lparr>salida := f3 # f2 # f1 # salida m\<rparr>"
  have q1: "procesar_pagina ent ruta_pdf lista_nombres patrones prefijo sufijo 0 p1 ?m0 ?r0
              = (?m1, Inr (?r0\<lparr>exitosos := [?e1]\<rparr>))"
    using procesar_pagina_nombre [OF n1, where r = f1 and m = ?m0 and prefijo = prefijo
        and sufijo = sufijo and ruta_pdf = ruta_pdf and res = ?r0] f1 g
    by simp
  have q2: "procesar_pagina ent ruta_pdf lista_nombres patrones prefijo sufijo 1 p2 ?m1
              (?r0\<lparr>exitosos := [?e1]\<rparr>)
              = (?m2, Inr (?r0\<lparr>exitosos := [?e1, ?e2]\<rparr>))"
    using procesar_pagina_nombre [OF n2, where r = f2 and m = ?m1 and prefijo = prefijo
        and sufijo = sufijo and ruta_pdf = ruta_pdf and res = "?r0\<lparr>exitosos := [?e1]\<rparr>"] f2 g
    by simp
  have q3: "procesar_pagina ent ruta_pdf lista_nombres patrones prefijo sufijo 2 p3 ?m2
              (?r0\<lparr>exitosos := [?e1, ?e2]\<rparr>)
              = (?m3, Inr (?r0\<lparr>exitosos := [?e1, ?e2, ?e3]\<rparr>))"
    using procesar_pagina_nombre [OF n3, where r = f3 and m = ?m2 and prefijo = prefijo
        and sufijo = sufijo and ruta_pdf = ruta_pdf
        and res = "?r0\<lparr>exitosos := [?e1, ?e2]\<rparr>"] f3 g
    by simp
  have b3: "bucle_paginas ent ruta_pdf lista_nombres patrones prefijo sufijo (2 + 1) [] ?m3
              (?r0\<lparr>exitosos := [?e1, ?e2, ?e3]\<rparr>)
              = (?m3, Inr (?r0\<lparr>exitosos := [?e1, ?e2, ?e3]\<rparr>))"
    by simp
  have b2: "bucle_paginas ent ruta_pdf lista_nombres patrones prefijo sufijo 2 [p3] ?m2
              (?r0\<lparr>exitosos := [?e1, ?e2]\<rparr>)
              = (?m3, Inr (?r0\<lparr>exitosos := [?e1, ?e2, ?e3]\<rparr>))"
    by (simp only: bucle_paginas.simps q3 b3 prod.case sum.case)
  have b1: "bucle_paginas ent ruta_pdf lista_nombres patrones prefijo sufijo 1 [p2, p3] ?m1
              (?r0\<lparr>exitosos := [?e1]\<rparr>)
              = (?m3, Inr (?r0\<lparr>exitosos := [?e1, ?e2, ?e3]\<rparr>))"
    using b2 by (simp only: bucle_paginas.simps q2 prod.case sum.case one_add_one)
  have b0: "bucle_paginas ent ruta_pdf lista_nombres patrones prefijo sufijo 0 [p1, p2, p3] ?m0 ?r0
              = (?m3, Inr (?r0\<lparr>exitosos := [?e1, ?e2, ?e3]\<rparr>))"
    using b1 by (simp only: bucle_paginas.simps q1 prod.case sum.case add_0)
  have len: "length [p1, p2, p3] = 3" by simp
  show ?thesis
    by (simp only: separar_certificados_def d archivo_pdf.case Let_def len b0 prod.case
        sum.case) simp
qed

lemma separar_John_Doe:
  "separar_certificados entorno_escenario (mundo_vacio\<lparr>salida := [texto ''John_Doe.pdf'']\<rparr>)
     (texto ''c.pdf'') (Some [texto ''John_Doe'', texto ''John_Doe'']) [texto ''a: (.+)''] [] []
   = (mundo_vacio\<lparr>salida := [texto ''Ana Ruiz.pdf'', texto ''John_Doe_2.pdf'',
                               texto ''John_Doe_1.pdf'', texto ''John_Doe.pdf'']\<rparr>,
      Inr \<lparr>exitosos =
             [\<lparr>e_pagina = 1, e_nombre = texto ''John_Doe'',
               e_archivo = texto ''John_Doe_1.pdf'', e_origen = Lista\<rparr>,
              \<lparr>e_pagina = 2, e_nombre = texto ''John_Doe'',
               e_archivo = texto ''John_Doe_2.pdf'', e_origen = Lista\<rparr>,
              \<lparr>e_pagina = 3, e_nombre = texto ''Ana Ruiz'',
               e_archivo = texto ''Ana Ruiz.pdf'', e_origen = Extraido\<rparr>],
           errores = [], total = 3, pdf_origen = texto ''c.pdf''\<rparr>)"
proof -
  let ?l = "Some [texto ''John_Doe'', texto ''John_Doe'']"
  have ne: "texto ''John_Doe'' \<noteq> []" by (simp add: texto_def)
  have n1: "nombre_de_pagina entorno_escenario ?l [texto ''a: (.+)''] 0
              (texto ''Otorga a: Jane Doe'') = Inr (texto ''John_Doe'', Lista)"
    using ne by (simp add: nombre_de_pagina_def)
  have n2: "nombre_de_pagina entorno_escenario ?l [texto ''a: (.+)''] 1
              (texto ''Sin nombre'') = Inr (texto ''John_Doe'', Lista)"
    using ne by (simp add: nombre_de_pagina_def)
  have ar: "texto ''Ana Ruiz'' \<noteq> []" by (simp add: texto_def)
  have n3: "nombre_de_pagina entorno_escenario ?l [texto ''a: (.+)''] 2
              (texto ''Certifica a: Ana Ruiz'') = Inr (texto ''Ana Ruiz'', Extraido)"
    using ar
    by (simp add: nombre_de_pagina_def entorno_escenario_simps(3) extraer_escenario(3)
        del: extraer_nombre_de_pagina.simps)
  have g: "\<forall>i f. guardar entorno_escenario (texto ''c.pdf'') i f = None"
    by (simp add: entorno_escenario_simps)
  have f1: "texto ''John_Doe_1.pdf'' = manejar_duplicados
      (salida (mundo_vacio\<lparr>salida := [texto ''John_Doe.pdf'']\<rparr>)) []
      (limpiar_nombre_archivo (texto ''John_Doe'')) []
      ([] @ limpiar_nombre_archivo (texto ''John_Doe'') @ [] @ texto ''.pdf'') 1"
    by (simp add: limpiar_John_Doe manejar_John_Doe_1)
  have f2: "texto ''John_Doe_2.pdf'' = manejar_duplicados
      (texto ''John_Doe_1.pdf'' # salida (mundo_vacio\<lparr>salida := [texto ''John_Doe.pdf'']\<rparr>)) []
      (limpiar_nombre_archivo (texto ''John_Doe'')) []
      ([] @ limpiar_nombre_archivo (texto ''John_Doe'') @ [] @ texto ''.pdf'') 1"
    by (simp add: limpiar_John_Doe manejar_John_Doe_2)
  have f3: "texto ''Ana Ruiz.pdf'' = manejar_duplicados
      (texto ''John_Doe_2.pdf'' # texto ''John_Doe_1.pdf''
         # salida (mundo_vacio\<lparr>salida := [texto ''John_Doe.pdf'']\<rparr>)) []
      (limpiar_nombre_archivo (texto ''Ana Ruiz'')) []
      ([] @ limpiar_nombre_archivo (texto ''Ana Ruiz'') @ [] @ texto ''.pdf'') 1"
    by (simp add: limpiar_Ana_Ruiz manejar_Ana_Ruiz)
  from separar_tres_paginas [OF entorno_escenario_simps(1) n1 n2 n3 g f1 f2 f3]
  show ?thesis by (simp add: entorno_escenario_simps(4))
qed

lemma separar_paginas_repartidas:
  assumes "separar_certificados ent m ruta_pdf lista_nombres patrones prefijo sufijo
             = (m', Inr res)"
  shows "\<exists>documento. pdf_en ent ruta_pdf = Pdf documento \<and> total res = length documento \<and>
           paginas_repartidas (length documento) res"
proof (cases "pdf_en ent ruta_pdf")
  case NoExiste
  with assms show ?thesis by (simp add: separar_certificados_def)
next
  case (Ilegible msg)
  with assms show ?thesis by (simp add: separar_certificados_def)
next
  case (Pdf documento)
  let ?m0 = "m\<lparr>abiertos := Documento # abiertos m\<rparr>"
  let ?r0 = "\<lparr>exitosos = [], errores = [], total = length documento,
              pdf_origen = path_name ent ruta_pdf\<rparr>"
  obtain m1 x where b: "bucle_paginas ent ruta_pdf lista_nombres patrones prefijo sufijo 0
      documento ?m0 ?r0 = (m1, x)"
    by (cases "bucle_paginas ent ruta_pdf lista_nombres patrones prefijo sufijo 0 documento ?m0 ?r0")
  from assms Pdf b have x: "x = Inr res"
    by (cases x) (simp_all add: separar_certificados_def Let_def)
  have "paginas_repartidas 0 ?r0" by (simp add: paginas_repartidas_def)
  from paginas_repartidas_bucle [OF b [unfolded x] this]
  have "paginas_repartidas (length documento) res" and "total res = length documento"
    by simp_all
  with Pdf show ?thesis by simp
qed

lemma nombre_de_pagina_lista:
  assumes "i < length l"
  shows "nombre_de_pagina ent (Some l) patrones i pag
     = (if l ! i = [] then Inr (texto ''certificado_'' @ formato_03d (i + 1), Generado)
        else Inr (l ! i, Lista))"
proof -
  from assms have "l \<noteq> []" by auto
  with assms show ?thesis by (simp add: nombre_de_pagina_def)
qed

lemma bucle_paginas_errores:
  assumes "bucle_paginas ent ruta_pdf lista_nombres patrones prefijo sufijo j pags m res
             = (m', Inr res')"
    and "pags = drop j documento"
  shows "\<exists>nuevos. errores res' = errores res @ nuevos \<and>
     (\<forall>f \<in> set nuevos. 1 \<le> f_pagina f \<and> f_pagina f \<le> length documento \<and>
        (\<exists>nombre org fs.
           nombre_de_pagina ent lista_nombres patrones (f_pagina f - 1)
             (documento ! (f_pagina f - 1)) = Inr (nombre, org) \<and>
           guardar ent ruta_pdf (f_pagina f - 1)
             (manejar_duplicados fs prefijo (limpiar_nombre_archivo nombre) sufijo
                (prefijo @ limpiar_nombre_archivo nombre @ sufijo @ texto ''.pdf'') 1)
             = Some (f_error f)))"
  using assms
proof (induction pags arbitrary: j m res)
  case Nil
  then show ?case by simp
next
  case (Cons pag pags)
  from Cons.prems(2) have j: "j < length documento"
    by (metis drop_all list.distinct(1) not_le)
  with Cons.prems(2) have pag: "pag = documento ! j" and pags: "pags = drop (j + 1) documento"
    by (simp_all add: Cons_nth_drop_Suc [symmetric])
  show ?case
  proof (cases "nombre_de_pagina ent lista_nombres patrones j pag")
    case (Inl e)
    with Cons.prems(1) show ?thesis by (simp add: procesar_pagina_excepcion)
  next
    case (Inr x)
    obtain nombre org where x: "x = (nombre, org)" by (cases x)
    let ?r = "manejar_duplicados (salida m) prefijo (limpiar_nombre_archivo nombre) sufijo
               (prefijo @ limpiar_nombre_archivo nombre @ sufijo @ texto ''.pdf'') 1"
    note p = procesar_pagina_nombre [OF Inr [unfolded x] refl,
        where m = m and prefijo = prefijo and sufijo = sufijo and ruta_pdf = ruta_pdf and res = res]
    show ?thesis
    proof (cases "guardar ent ruta_pdf j ?r")
      case None
      let ?e = "\<lparr>e_pagina = j + 1, e_nombre = nombre, e_archivo = ?r, e_origen = org\<rparr>"
      let ?m1 = "m\<lparr>salida := ?r # salida m\<rparr>"
      let ?res1 = "res\<lparr>exitosos := exitosos res @ [?e]\<rparr>"
      from p None have q: "procesar_pagina ent ruta_pdf lista_nombres patrones prefijo sufijo j pag
          m res = (?m1, Inr ?res1)" by simp
      with Cons.prems(1) have b: "bucle_paginas ent ruta_pdf lista_nombres patrones prefijo sufijo
          (j + 1) pags ?m1 ?res1 = (m', Inr res')" by simp
      from Cons.IH [OF b pags] show ?thesis by simp
    next
      case (Some msg)
      let ?f = "\<lparr>f_pagina = j + 1, f_error = msg\<rparr>"
      let ?m1 = "m\<lparr>abiertos := Nuevo j # abiertos m\<rparr>"
      let ?res1 = "res\<lparr>errores := errores res @ [?f]\<rparr>"
      from p Some have q: "procesar_pagina ent ruta_pdf lista_nombres patrones prefijo sufijo j pag
          m res = (?m1, Inr ?res1)" by simp
      with Cons.prems(1) have b: "bucle_paginas ent ruta_pdf lista_nombres patrones prefijo sufijo
          (j + 1) pags ?m1 ?res1 = (m', Inr res')" by simp
      let ?P = "\<lambda>f. 1 \<le> f_pagina f \<and> f_pagina f \<le> length documento \<and>
        (\<exists>nombre org fs.
           nombre_de_pagina ent lista_nombres patrones (f_pagina f - 1)
             (documento ! (f_pagina f - 1)) = Inr (nombre, org) \<and>
           guardar ent ruta_pdf (f_pagina f - 1)
             (manejar_duplicados fs prefijo (limpiar_nombre_archivo nombre) sufijo
                (prefijo @ limpiar_nombre_archivo nombre @ sufijo @ texto ''.pdf'') 1)
             = Some (f_error f))"
      from Cons.IH [OF b pags] obtain nuevos where n:
        "errores res' = errores ?res1 @ nuevos" "\<forall>f \<in> set nuevos. ?P f"
        by blast
      have "nombre_de_pagina ent lista_nombres patrones j (documento ! j) = Inr (nombre, org)"
        using Inr x pag by simp
      with Some have "\<exists>nombre org fs.
           nombre_de_pagina ent lista_nombres patrones j (documento ! j) = Inr (nombre, org) \<and>
           guardar ent ruta_pdf j
             (manejar_duplicados fs prefijo (limpiar_nombre_archivo nombre) sufijo
                (prefijo @ limpiar_nombre_archivo nombre @ sufijo @ texto ''.pdf'') 1)
             = Some msg"
        by blast
      with j have "?P ?f" by simp
      with n(2) have "\<forall>f \<in> set (?f # nuevos). ?P f" by simp
      moreover have "errores res' = errores res @ (?f # nuevos)" using n(1) by simp
      ultimately show ?thesis by blast
    qed
  qed
qed

lemma separar_certificados_errores:
  assumes "separar_certificados ent m ruta_pdf lista_nombres patrones prefijo sufijo
             = (m', Inr res)"
    and "pdf_en ent ruta_pdf = Pdf documento"
    and "f \<in> set (errores res)"
  shows "1 \<le> f_pagina f \<and> f_pagina f \<le> length documento \<and>
        (\<exists>nombre org fs.
           nombre_de_pagina ent lista_nombres patrones (f_pagina f - 1)
             (documento ! (f_pagina f - 1)) = Inr (nombre, org) \<and>
           guardar ent ruta_pdf (f_pagina f - 1)
             (manejar_duplicados fs prefijo (limpiar_nombre_archivo nombre) sufijo
                (prefijo @ limpiar_nombre_archivo nombre @ sufijo @ texto ''.pdf'') 1)
             = Some (f_error f))"
proof -
  let ?m0 = "m\<lparr>abiertos := Documento # abiertos m\<rparr>"
  let ?r0 = "\<lparr>exitosos = [], errores = [], total = length documento,
              pdf_origen = path_name ent ruta_pdf\<rparr>"
  obtain m1 x where b: "bucle_paginas ent ruta_pdf lista_nombres patrones prefijo sufijo 0
      documento ?m0 ?r0 = (m1, x)"
    by (cases "bucle_paginas ent ruta_pdf lista_nombres patrones prefijo sufijo 0 documento ?m0 ?r0")
  from assms(1,2) b have x: "x = Inr res"
    by (cases x) (simp_all add: separar_certificados_def Let_def)
  have d: "documento = drop 0 documento" by simp
  from bucle_paginas_errores [OF b [unfolded x] d] assms(3) show ?thesis by simp
qed

lemma nombre_generado_2:
  "texto ''certificado_'' @ formato_03d (1 + 1) = texto ''certificado_002''"
proof -
  have "(1::nat) + 1 = 2" by simp
  then show ?thesis by (simp only: formato_03d_2) (simp add: texto_def)
qed

lemma nombre_generado_1:
  "texto ''certificado_'' @ formato_03d (0 + 1) = texto ''certificado_001''"
proof -
  have "(0::nat) + 1 = 1" by simp
  then show ?thesis by (simp only: formato_03d_1) (simp add: texto_def)
qed

lemma nombre_de_pagina_extraido:
  assumes "\<not> i < length l"
    and "extraer_nombre_de_pagina (re_search ent) pag patrones = Inr (Some n)" and "n \<noteq> []"
  shows "nombre_de_pagina ent (Some l) patrones i pag = Inr (n, Extraido)"
  using assms by (simp add: nombre_de_pagina_def)

lemma nombre_de_pagina_generado:
  assumes "\<not> i < length l"
    and "extraer_nombre_de_pagina (re_search ent) pag patrones = Inr None"
  shows "nombre_de_pagina ent (Some l) patrones i pag
           = Inr (texto ''certificado_'' @ formato_03d (i + 1), Generado)"
  using assms by (simp add: nombre_de_pagina_def)

lemma separar_Bob_Smith:
  "\<exists>m' f1 f2 f3.
     separar_certificados entorno_escenario mundo_vacio (texto ''c.pdf'')
       (Some [texto ''Bob Smith'', []]) [texto ''a: (.+)''] [] []
     = (m', Inr \<lparr>exitosos =
               [\<lparr>e_pagina = 1, e_nombre = texto ''Bob Smith'', e_archivo = f1, e_origen = Lista\<rparr>,
                \<lparr>e_pagina = 2, e_nombre = texto ''certificado_002'', e_archivo = f2,
                  e_origen = Generado\<rparr>,
                \<lparr>e_pagina = 3, e_nombre = texto ''Ana Ruiz'', e_archivo = f3,
                  e_origen = Extraido\<rparr>],
             errores = [], total = 3, pdf_origen = texto ''c.pdf''\<rparr>)"
proof -
  let ?l = "[texto ''Bob Smith'', []]"
  have b: "texto ''Bob Smith'' \<noteq> []" and a: "texto ''Ana Ruiz'' \<noteq> []"
    by (simp_all add: texto_def)
  have n1: "nombre_de_pagina entorno_escenario (Some ?l) [texto ''a: (.+)''] 0
              (texto ''Otorga a: Jane Doe'') = Inr (texto ''Bob Smith'', Lista)"
    using nombre_de_pagina_lista [of 0 ?l] b by simp
  have n2: "nombre_de_pagina entorno_escenario (Some ?l) [texto ''a: (.+)''] 1
              (texto ''Sin nombre'') = Inr (texto ''certificado_002'', Generado)"
    using nombre_de_pagina_lista [of 1 ?l] nombre_generado_2 by simp
  have n3: "nombre_de_pagina entorno_escenario (Some ?l) [texto ''a: (.+)''] 2
              (texto ''Certifica a: Ana Ruiz'') = Inr (texto ''Ana Ruiz'', Extraido)"
    by (rule nombre_de_pagina_extraido)
       (simp_all only: entorno_escenario_simps(3) extraer_escenario a, simp_all)
  have g: "\<forall>i f. guardar entorno_escenario (texto ''c.pdf'') i f = None"
    by (simp add: entorno_escenario_simps)
  from separar_tres_paginas [OF entorno_escenario_simps(1) n1 n2 n3 g refl refl refl]
  show ?thesis by (simp only: entorno_escenario_simps(4)) blast
qed

lemma cargar_lista_nombres_sin_vacios:
  "n \<in> set (fst (cargar_lista_nombres ent ruta)) \<Longrightarrow> n \<noteq> []"
  by (auto simp: cargar_lista_nombres_def Let_def split: sum.splits if_splits)

text \<open>
  A run returns a summary whenever the input is a document and no page makes the name
  extraction raise; a page whose \<open>save\<close> raises does not stop it.
\<close>

lemma bucle_paginas_devuelve:
  assumes "pags = drop j documento"
    and "\<forall>i < length documento.
           \<exists>x. nombre_de_pagina ent lista_nombres patrones i (documento ! i) = Inr x"
  shows "\<exists>m' res'. bucle_paginas ent ruta_pdf lista_nombres patrones prefijo sufijo j pags m res
           = (m', Inr res')"
  using assms(1)
proof (induction pags arbitrary: j m res)
  case Nil
  show ?case by simp
next
  case (Cons pag pags)
  from Cons.prems have j: "j < length documento"
    by (metis drop_all list.distinct(1) not_le)
  with Cons.prems have pag: "pag = documento ! j" and pags: "pags = drop (j + 1) documento"
    by (simp_all add: Cons_nth_drop_Suc [symmetric])
  from assms(2) j pag obtain x where
    n: "nombre_de_pagina ent lista_nombres patrones j pag = Inr x" by blast
  obtain nombre org where x: "x = (nombre, org)" by (cases x)
  note p = procesar_pagina_nombre [OF n [unfolded x] refl,
      where m = m and prefijo = prefijo and sufijo = sufijo and ruta_pdf = ruta_pdf and res = res]
  from p obtain m1 res1 where q: "procesar_pagina ent ruta_pdf lista_nombres patrones prefijo
      sufijo j pag m res = (m1, Inr res1)"
    by (cases "guardar ent ruta_pdf j (manejar_duplicados (salida m) prefijo
          (limpiar_nombre_archivo nombre) sufijo
          (prefijo @ limpiar_nombre_archivo nombre @ sufijo @ texto ''.pdf'') 1)") auto
  from Cons.IH [OF pags, of m1 res1] q show ?case by simp
qed

lemma separar_certificados_devuelve:
  assumes "pdf_en ent ruta_pdf = Pdf documento"
    and "\<forall>i < length documento.
           \<exists>x. nombre_de_pagina ent lista_nombres patrones i (documento ! i) = Inr x"
  shows "\<exists>m' res. separar_certificados ent m ruta_pdf lista_nombres patrones prefijo sufijo
           = (m', Inr res)"
proof -
  have d: "documento = drop 0 documento" by simp
  from bucle_paginas_devuelve [OF d assms(2), where ruta_pdf = ruta_pdf and prefijo = prefijo
      and sufijo = sufijo and m = "m\<lparr>abiertos := Documento # abiertos m\<rparr>"
      and res = "\<lparr>exitosos = [], errores = [], total = length documento,
        pdf_origen = path_name ent ruta_pdf\<rparr>"]
  obtain m1 res1 where "bucle_paginas ent ruta_pdf lista_nombres patrones prefijo sufijo 0
      documento (m\<lparr>abiertos := Documento # abiertos m\<rparr>)
      \<lparr>exitosos = [], errores = [], total = length documento,
        pdf_origen = path_name ent ruta_pdf\<rparr> = (m1, Inr res1)"
    by blast
  with assms(1) show ?thesis by (simp add: separar_certificados_def Let_def)
qed

section \<open>Collisions of file names\<close>

text \<open>
  Claim C3. Let a run of \<open>separar_certificados\<close> return a summary. Then the output
  directory afterwards is the directory before with the files of the successes added, one
  per saved page, so that nothing that existed is gone; these files are pairwise different
  and none of them existed before the run. For every saved page, with \<open>F\<close> the paths that
  exist when its turn comes (the directory before the run and the files of the pages saved
  earlier): its file is not in \<open>F\<close>; it is \<open>prefijo + nombre_limpio + sufijo + ".pdf"\<close> when
  that is not in \<open>F\<close>; otherwise it is \<open>prefijo + nombre_limpio + "_" + str(k) + sufijo +
  ".pdf"\<close> for the least \<open>k \<ge> 1\<close> whose name is not in \<open>F\<close>. Of two saved pages whose names
  are cleaned to the same string, the later one has a counter \<open>k \<ge> 1\<close>, and the earlier one
  has the name without counter or a smaller counter.
\<close>

theorem colision_sufijo_creciente:
  assumes "separar_certificados ent m ruta_pdf lista_nombres patrones prefijo sufijo
             = (m', Inr res)"
  shows "salida m' = rev (map e_archivo (exitosos res)) @ salida m \<and>
     distinct (map e_archivo (exitosos res)) \<and>
     set (map e_archivo (exitosos res)) \<inter> set (salida m) = {} \<and>
     (\<forall>xs e ys. exitosos res = xs @ e # ys \<longrightarrow>
        e_archivo e \<notin> set (map e_archivo xs) \<union> set (salida m) \<and>
        (prefijo @ limpiar_nombre_archivo (e_nombre e) @ sufijo @ texto ''.pdf''
           \<notin> set (map e_archivo xs) \<union> set (salida m) \<longrightarrow>
         e_archivo e = prefijo @ limpiar_nombre_archivo (e_nombre e) @ sufijo @ texto ''.pdf'') \<and>
        (prefijo @ limpiar_nombre_archivo (e_nombre e) @ sufijo @ texto ''.pdf''
           \<in> set (map e_archivo xs) \<union> set (salida m) \<longrightarrow>
         (\<exists>k\<ge>1. e_archivo e
                  = nombre_con_contador prefijo (limpiar_nombre_archivo (e_nombre e)) k sufijo \<and>
            (\<forall>j. 1 \<le> j \<and> j < k \<longrightarrow>
               nombre_con_contador prefijo (limpiar_nombre_archivo (e_nombre e)) j sufijo
                 \<in> set (map e_archivo xs) \<union> set (salida m))))) \<and>
     (\<forall>xs e1 ys e2 zs.
        exitosos res = xs @ e1 # ys @ e2 # zs \<and>
        limpiar_nombre_archivo (e_nombre e1) = limpiar_nombre_archivo (e_nombre e2) \<longrightarrow>
        (\<exists>k\<ge>1. e_archivo e2
                 = nombre_con_contador prefijo (limpiar_nombre_archivo (e_nombre e2)) k sufijo \<and>
           (e_archivo e1
              = prefijo @ limpiar_nombre_archivo (e_nombre e2) @ sufijo @ texto ''.pdf'' \<or>
            (\<exists>k1. 1 \<le> k1 \<and> k1 < k \<and>
               e_archivo e1
                 = nombre_con_contador prefijo (limpiar_nombre_archivo (e_nombre e2)) k1 sufijo))))"
proof -
  from separar_certificados_exitos [OF assms] obtain documento where
    s: "salida m' = rev (map e_archivo (exitosos res)) @ salida m"
    and c: "exitos_correctos ent ruta_pdf lista_nombres patrones prefijo sufijo documento
              (salida m) (exitosos res)"
    by blast
  note d = exitos_correctos_distintos [OF c]
  have e: "\<forall>xs e ys. exitosos res = xs @ e # ys \<longrightarrow>
        e_archivo e \<notin> set (map e_archivo xs) \<union> set (salida m) \<and>
        (prefijo @ limpiar_nombre_archivo (e_nombre e) @ sufijo @ texto ''.pdf''
           \<notin> set (map e_archivo xs) \<union> set (salida m) \<longrightarrow>
         e_archivo e = prefijo @ limpiar_nombre_archivo (e_nombre e) @ sufijo @ texto ''.pdf'') \<and>
        (prefijo @ limpiar_nombre_archivo (e_nombre e) @ sufijo @ texto ''.pdf''
           \<in> set (map e_archivo xs) \<union> set (salida m) \<longrightarrow>
         (\<exists>k\<ge>1. e_archivo e
                  = nombre_con_contador prefijo (limpiar_nombre_archivo (e_nombre e)) k sufijo \<and>
            (\<forall>j. 1 \<le> j \<and> j < k \<longrightarrow>
               nombre_con_contador prefijo (limpiar_nombre_archivo (e_nombre e)) j sufijo
                 \<in> set (map e_archivo xs) \<union> set (salida m))))"
  proof (intro allI impI)
    fix xs e ys assume x: "exitosos res = xs @ e # ys"
    from exitos_correctos_eleccion [OF c [unfolded x] refl refl refl]
    show "e_archivo e \<notin> set (map e_archivo xs) \<union> set (salida m) \<and>
        (prefijo @ limpiar_nombre_archivo (e_nombre e) @ sufijo @ texto ''.pdf''
           \<notin> set (map e_archivo xs) \<union> set (salida m) \<longrightarrow>
         e_archivo e = prefijo @ limpiar_nombre_archivo (e_nombre e) @ sufijo @ texto ''.pdf'') \<and>
        (prefijo @ limpiar_nombre_archivo (e_nombre e) @ sufijo @ texto ''.pdf''
           \<in> set (map e_archivo xs) \<union> set (salida m) \<longrightarrow>
         (\<exists>k\<ge>1. e_archivo e
                  = nombre_con_contador prefijo (limpiar_nombre_archivo (e_nombre e)) k sufijo \<and>
            (\<forall>j. 1 \<le> j \<and> j < k \<longrightarrow>
               nombre_con_contador prefijo (limpiar_nombre_archivo (e_nombre e)) j sufijo
                 \<in> set (map e_archivo xs) \<union> set (salida m))))" .
  qed
  have f: "\<forall>xs e1 ys e2 zs.
        exitosos res = xs @ e1 # ys @ e2 # zs \<and>
        limpiar_nombre_archivo (e_nombre e1) = limpiar_nombre_archivo (e_nombre e2) \<longrightarrow>
        (\<exists>k\<ge>1. e_archivo e2
                 = nombre_con_contador prefijo (limpiar_nombre_archivo (e_nombre e2)) k sufijo \<and>
           (e_archivo e1
              = prefijo @ limpiar_nombre_archivo (e_nombre e2) @ sufijo @ texto ''.pdf'' \<or>
            (\<exists>k1. 1 \<le> k1 \<and> k1 < k \<and>
               e_archivo e1
                 = nombre_con_contador prefijo (limpiar_nombre_archivo (e_nombre e2)) k1 sufijo)))"
  proof (intro allI impI, elim conjE)
    fix xs e1 ys e2 zs
    assume x: "exitosos res = xs @ e1 # ys @ e2 # zs"
      and n: "limpiar_nombre_archivo (e_nombre e1) = limpiar_nombre_archivo (e_nombre e2)"
    from exitos_correctos_mismo_nombre [OF c [unfolded x] n refl]
    show "\<exists>k\<ge>1. e_archivo e2
                 = nombre_con_contador prefijo (limpiar_nombre_archivo (e_nombre e2)) k sufijo \<and>
           (e_archivo e1
              = prefijo @ limpiar_nombre_archivo (e_nombre e2) @ sufijo @ texto ''.pdf'' \<or>
            (\<exists>k1. 1 \<le> k1 \<and> k1 < k \<and>
               e_archivo e1
                 = nombre_con_contador prefijo (limpiar_nombre_archivo (e_nombre e2)) k1 sufijo))" .
  qed
  from s d e f show ?thesis by (intro conjI) blast+
qed

text \<open>
  The scenario of the claim as a run: the output directory holds \<open>John_Doe.pdf\<close>, and
  the list names the first two of three pages \<open>John_Doe\<close>. They are written as
  \<open>John_Doe_1.pdf\<close> and \<open>John_Doe_2.pdf\<close>, the third page as \<open>Ana Ruiz.pdf\<close>, and
  \<open>John_Doe.pdf\<close> is still there.
\<close>

theorem colision_sufijo_creciente_witness:
  "separar_certificados entorno_escenario (mundo_vacio\<lparr>salida := [texto ''John_Doe.pdf'']\<rparr>)
     (texto ''c.pdf'') (Some [texto ''John_Doe'', texto ''John_Doe'']) [texto ''a: (.+)''] [] []
   = (mundo_vacio\<lparr>salida := [texto ''Ana Ruiz.pdf'', texto ''John_Doe_2.pdf'',
                               texto ''John_Doe_1.pdf'', texto ''John_Doe.pdf'']\<rparr>,
      Inr \<lparr>exitosos =
             [\<lparr>e_pagina = 1, e_nombre = texto ''John_Doe'',
               e_archivo = texto ''John_Doe_1.pdf'', e_origen = Lista\<rparr>,
              \<lparr>e_pagina = 2, e_nombre = texto ''John_Doe'',
               e_archivo = texto ''John_Doe_2.pdf'', e_origen = Lista\<rparr>,
              \<lparr>e_pagina = 3, e_nombre = texto ''Ana Ruiz'',
               e_archivo = texto ''Ana Ruiz.pdf'', e_origen = Extraido\<rparr>],
           errores = [], total = 3, pdf_origen = texto ''c.pdf''\<rparr>) \<and>
   distinct [texto ''John_Doe_1.pdf'', texto ''John_Doe_2.pdf'', texto ''Ana Ruiz.pdf''] \<and>
   set [texto ''John_Doe_1.pdf'', texto ''John_Doe_2.pdf'', texto ''Ana Ruiz.pdf'']
     \<inter> set [texto ''John_Doe.pdf''] = {}"
proof -
  note t = colision_sufijo_creciente [OF separar_John_Doe]
  from t have "distinct (map e_archivo
      [\<lparr>e_pagina = 1, e_nombre = texto ''John_Doe'',
               e_archivo = texto ''John_Doe_1.pdf'', e_origen = Lista\<rparr>,
              \<lparr>e_pagina = 2, e_nombre = texto ''John_Doe'',
               e_archivo = texto ''John_Doe_2.pdf'', e_origen = Lista\<rparr>,
              \<lparr>e_pagina = 3, e_nombre = texto ''Ana Ruiz'',
               e_archivo = texto ''Ana Ruiz.pdf'', e_origen = Extraido\<rparr>])"
    and "set (map e_archivo
      [\<lparr>e_pagina = 1, e_nombre = texto ''John_Doe'',
               e_archivo = texto ''John_Doe_1.pdf'', e_origen = Lista\<rparr>,
              \<lparr>e_pagina = 2, e_nombre = texto ''John_Doe'',
               e_archivo = texto ''John_Doe_2.pdf'', e_origen = Lista\<rparr>,
              \<lparr>e_pagina = 3, e_nombre = texto ''Ana Ruiz'',
               e_archivo = texto ''Ana Ruiz.pdf'', e_origen = Extraido\<rparr>])
       \<inter> set (salida (mundo_vacio\<lparr>salida := [texto ''John_Doe.pdf'']\<rparr>)) = {}"
    by (simp_all only: resultados.simps)
  then have "distinct [texto ''John_Doe_1.pdf'', texto ''John_Doe_2.pdf'', texto ''Ana Ruiz.pdf'']"
    and "set [texto ''John_Doe_1.pdf'', texto ''John_Doe_2.pdf'', texto ''Ana Ruiz.pdf'']
       \<inter> set [texto ''John_Doe.pdf''] = {}"
    by simp_all
  with separar_John_Doe show ?thesis by (intro conjI)
qed

section \<open>Precedence of the name list\<close>

text \<open>
  Claim C2, as the code has it. Let a run of \<open>separar_certificados\<close> with the list \<open>l\<close>
  return a summary, and let \<open>i\<close> be a page index of the document that is a valid index
  of \<open>l\<close>. The name of the page is the entry \<open>l[i]\<close> with origin \<open>lista\<close> when that entry
  is not the empty string, and the generated \<open>certificado_NNN\<close> with origin \<open>generado\<close>
  when it is; what the patterns find in the page plays no part. Page \<open>i + 1\<close> is in the
  summary. If it is among the successes, the recorded name and origin are these and the
  file name is the one chosen by the loop over the counter for that name; if it is among
  the errors, the recorded message is the one of saving under a file name chosen for
  that name.
\<close>

theorem lista_precede_en_la_ejecucion:
  assumes "separar_certificados ent m ruta_pdf (Some l) patrones prefijo sufijo = (m', Inr res)"
    and "i < total res" and "i < length l"
    and "nombre = (if l ! i = [] then texto ''certificado_'' @ formato_03d (i + 1) else l ! i)"
    and "org = (if l ! i = [] then Generado else Lista)"
  shows "i + 1 \<in> set (map e_pagina (exitosos res)) \<union> set (map f_pagina (errores res)) \<and>
     (\<forall>e \<in> set (exitosos res). e_pagina e = i + 1 \<longrightarrow>
        e_nombre e = nombre \<and> e_origen e = org \<and>
        (\<exists>fs. e_archivo e
           = manejar_duplicados fs prefijo (limpiar_nombre_archivo nombre) sufijo
               (prefijo @ limpiar_nombre_archivo nombre @ sufijo @ texto ''.pdf'') 1)) \<and>
     (\<forall>f \<in> set (errores res). f_pagina f = i + 1 \<longrightarrow>
        (\<exists>fs. guardar ent ruta_pdf i
                (manejar_duplicados fs prefijo (limpiar_nombre_archivo nombre) sufijo
                   (prefijo @ limpiar_nombre_archivo nombre @ sufijo @ texto ''.pdf'') 1)
              = Some (f_error f)))"
proof -
  from separar_certificados_exitos [OF assms(1)] obtain documento where
    d: "pdf_en ent ruta_pdf = Pdf documento"
    and c: "exitos_correctos ent ruta_pdf (Some l) patrones prefijo sufijo documento
              (salida m) (exitosos res)"
    by blast
  from separar_paginas_repartidas [OF assms(1)] d
  have t: "total res = length documento"
    and r: "paginas_repartidas (length documento) res"
    by simp_all
  have nl: "nombre_de_pagina ent (Some l) patrones i (documento ! i) = Inr (nombre, org)"
    using nombre_de_pagina_lista [OF assms(3), of ent patrones "documento ! i"] assms(4,5)
    by simp
  from r have "set (map e_pagina (exitosos res)) \<union> set (map f_pagina (errores res))
                 = {1..length documento}"
    unfolding paginas_repartidas_def by blast
  moreover from assms(2) t have "i + 1 \<in> {1..length documento}" by simp
  ultimately have a: "i + 1 \<in> set (map e_pagina (exitosos res)) \<union> set (map f_pagina (errores res))"
    by simp
  have b: "\<forall>e \<in> set (exitosos res). e_pagina e = i + 1 \<longrightarrow>
        e_nombre e = nombre \<and> e_origen e = org \<and>
        (\<exists>fs. e_archivo e
           = manejar_duplicados fs prefijo (limpiar_nombre_archivo nombre) sufijo
               (prefijo @ limpiar_nombre_archivo nombre @ sufijo @ texto ''.pdf'') 1)"
  proof (intro ballI impI)
    fix e assume e: "e \<in> set (exitosos res)" and p: "e_pagina e = i + 1"
    from exitos_correctos_miembro [OF c e] p
    have "nombre_de_pagina ent (Some l) patrones i (documento ! i)
            = Inr (e_nombre e, e_origen e)" by simp
    with nl have n: "e_nombre e = nombre" "e_origen e = org" by simp_all
    from e obtain xs ys where "exitosos res = xs @ e # ys" by (meson split_list)
    with c have "exitos_correctos ent ruta_pdf (Some l) patrones prefijo sufijo documento
              (salida m) (xs @ e # ys)" by simp
    from exitos_correctos_archivo [OF this]
    have "\<exists>fs. e_archivo e
           = manejar_duplicados fs prefijo (limpiar_nombre_archivo (e_nombre e)) sufijo
               (prefijo @ limpiar_nombre_archivo (e_nombre e) @ sufijo @ texto ''.pdf'') 1"
      by blast
    with n show "e_nombre e = nombre \<and> e_origen e = org \<and>
        (\<exists>fs. e_archivo e
           = manejar_duplicados fs prefijo (limpiar_nombre_archivo nombre) sufijo
               (prefijo @ limpiar_nombre_archivo nombre @ sufijo @ texto ''.pdf'') 1)"
      by simp
  qed
  have f: "\<forall>f \<in> set (errores res). f_pagina f = i + 1 \<longrightarrow>
        (\<exists>fs. guardar ent ruta_pdf i
                (manejar_duplicados fs prefijo (limpiar_nombre_archivo nombre) sufijo
                   (prefijo @ limpiar_nombre_archivo nombre @ sufijo @ texto ''.pdf'') 1)
              = Some (f_error f))"
  proof (intro ballI impI)
    fix f assume f: "f \<in> set (errores res)" and p: "f_pagina f = i + 1"
    from separar_certificados_errores [OF assms(1) d f] p nl
    show "\<exists>fs. guardar ent ruta_pdf i
                (manejar_duplicados fs prefijo (limpiar_nombre_archivo nombre) sufijo
                   (prefijo @ limpiar_nombre_archivo nombre @ sufijo @ texto ''.pdf'') 1)
              = Some (f_error f)"
      by auto
  qed
  from a b f show ?thesis by (intro conjI)
qed

text \<open>
  The document of the scenario with the list \<open>["Bob Smith", ""]\<close>: the first page is named
  by the list although its text matches a pattern, the second entry is empty and the
  second page gets the generated name, the third page has no entry and is extracted.
\<close>

theorem lista_precede_en_la_ejecucion_witness:
  "map (\<lambda>e. (e_pagina e, e_nombre e, e_origen e))
     (exitosos (projr (snd (separar_certificados entorno_escenario mundo_vacio (texto ''c.pdf'')
        (Some [texto ''Bob Smith'', []]) [texto ''a: (.+)''] [] []))))
   = [(1, texto ''Bob Smith'', Lista), (2, texto ''certificado_002'', Generado),
      (3, texto ''Ana Ruiz'', Extraido)] \<and>
   (0::nat) < length [texto ''Bob Smith'', []] \<and>
   (0::nat) + 1 \<in>
     set (map e_pagina (exitosos (projr (snd (separar_certificados entorno_escenario mundo_vacio
        (texto ''c.pdf'') (Some [texto ''Bob Smith'', []]) [texto ''a: (.+)''] [] []))))) \<union>
     set (map f_pagina (errores (projr (snd (separar_certificados entorno_escenario mundo_vacio
        (texto ''c.pdf'') (Some [texto ''Bob Smith'', []]) [texto ''a: (.+)''] [] [])))))"
proof -
  let ?run = "separar_certificados entorno_escenario mundo_vacio (texto ''c.pdf'')
        (Some [texto ''Bob Smith'', []]) [texto ''a: (.+)''] [] []"
  from separar_Bob_Smith obtain m' f1 f2 f3 where
    s: "?run = (m', Inr \<lparr>exitosos =
               [\<lparr>e_pagina = 1, e_nombre = texto ''Bob Smith'', e_archivo = f1, e_origen = Lista\<rparr>,
                \<lparr>e_pagina = 2, e_nombre = texto ''certificado_002'', e_archivo = f2,
                  e_origen = Generado\<rparr>,
                \<lparr>e_pagina = 3, e_nombre = texto ''Ana Ruiz'', e_archivo = f3,
                  e_origen = Extraido\<rparr>],
             errores = [], total = 3, pdf_origen = texto ''c.pdf''\<rparr>)"
    by blast
  let ?res = "projr (snd ?run)"
  from s have r: "?run = (m', Inr ?res)" by simp
  have t: "0 < total ?res" using s by simp
  have l: "(0::nat) < length [texto ''Bob Smith'', []]" by simp
  from lista_precede_en_la_ejecucion [OF r t l refl refl]
  have "(0::nat) + 1 \<in> set (map e_pagina (exitosos ?res)) \<union> set (map f_pagina (errores ?res))"
    by blast
  moreover from s have "map (\<lambda>e. (e_pagina e, e_nombre e, e_origen e)) (exitosos ?res)
   = [(1, texto ''Bob Smith'', Lista), (2, texto ''certificado_002'', Generado),
      (3, texto ''Ana Ruiz'', Extraido)]" by simp
  ultimately show ?thesis using l by (intro conjI)
qed

text \<open>
  Claim C2 as stated fails for an entry that is the empty string. With the list \<open>[""]\<close>
  index 0 is valid, and the first page is recorded as \<open>certificado_001\<close> with origin
  \<open>generado\<close>: \<open>if not nombre\<close> replaces the empty entry by the generated name.
\<close>

theorem lista_precede_en_la_ejecucion_counterexample:
  "(0::nat) < length [[]::ustring] \<and>
   map e_pagina
     (exitosos (projr (snd (separar_certificados entorno_escenario mundo_vacio (texto ''c.pdf'')
        (Some [[]]) [texto ''a: (.+)''] [] [])))) = [1, 2, 3] \<and>
   map e_nombre
     (exitosos (projr (snd (separar_certificados entorno_escenario mundo_vacio (texto ''c.pdf'')
        (Some [[]]) [texto ''a: (.+)''] [] []))))
   = [texto ''certificado_001'', texto ''certificado_002'', texto ''Ana Ruiz''] \<and>
   map e_origen
     (exitosos (projr (snd (separar_certificados entorno_escenario mundo_vacio (texto ''c.pdf'')
        (Some [[]]) [texto ''a: (.+)''] [] [])))) = [Generado, Generado, Extraido]"
proof -
  let ?l = "[[]::ustring]"
  have a: "texto ''Ana Ruiz'' \<noteq> []" by (simp add: texto_def)
  have n1: "nombre_de_pagina entorno_escenario (Some ?l) [texto ''a: (.+)''] 0
              (texto ''Otorga a: Jane Doe'') = Inr (texto ''certificado_001'', Generado)"
    using nombre_de_pagina_lista [of 0 ?l] nombre_generado_1 by simp
  have n2: "nombre_de_pagina entorno_escenario (Some ?l) [texto ''a: (.+)''] 1
              (texto ''Sin nombre'') = Inr (texto ''certificado_002'', Generado)"
    using nombre_de_pagina_generado [of 1 ?l entorno_escenario "texto ''Sin nombre''"
        "[texto ''a: (.+)'']"] nombre_generado_2
    by (simp only: entorno_escenario_simps(3) extraer_escenario) simp
  have n3: "nombre_de_pagina entorno_escenario (Some ?l) [texto ''a: (.+)''] 2
              (texto ''Certifica a: Ana Ruiz'') = Inr (texto ''Ana Ruiz'', Extraido)"
    by (rule nombre_de_pagina_extraido)
       (simp_all only: entorno_escenario_simps(3) extraer_escenario a, simp_all)
  have g: "\<forall>i f. guardar entorno_escenario (texto ''c.pdf'') i f = None"
    by (simp add: entorno_escenario_simps)
  from separar_tres_paginas [OF entorno_escenario_simps(1) n1 n2 n3 g refl refl refl]
  show ?thesis by simp
qed

section \<open>Line breaks in an extracted name\<close>

text \<open>
  A line feed is whitespace, so after the substitution of \<open>\s+\<close> no line feed is left
  and \<open>split('\n')[0]\<close> returns the whole string.
\<close>

lemma primera_linea_colapsar_espacios:
  "primera_linea (colapsar_espacios s) = colapsar_espacios s"
proof -
  have "\<forall>c \<in> set (colapsar_espacios s). c \<noteq> 10"
  proof
    fix c assume c: "c \<in> set (colapsar_espacios s)"
    show "c \<noteq> 10"
    proof
      assume "c = 10"
      with c have "10 \<in> set (colapsar_espacios s)" by simp
      then show False
      proof (induction s rule: colapsar_espacios.induct)
        case 1
        then show ?case by simp
      next
        case (2 c cs)
        show ?case
        proof (cases "es_espacio c")
          case True
          with 2 show ?thesis by (simp add: colapsar_espacios_si)
        next
          case False
          then have "c \<noteq> 10" by (auto simp: es_espacio_def)
          with 2 False show ?thesis by (simp add: colapsar_espacios_no)
        qed
      qed
    qed
  qed
  then show ?thesis by (simp add: primera_linea_def)
qed

text \<open>
  Claim C4 at a capture with an embedded line break. Group 1 is \<open>Jane\<close>, a line feed and
  \<open>Doe\<close>. The claim says that the value is cut at the line break, which gives \<open>Jane\<close>;
  the function returns \<open>Jane Doe\<close>.
\<close>

theorem extraer_nombre_salto_de_linea:
  "extraer_nombre_de_pagina (\<lambda>_ _. Coincide (Texto (texto ''Jane'' @ [10] @ texto ''Doe'')))
     (texto ''Nombre: Jane'' @ [10] @ texto ''Doe'') [texto ''Nombre: (.+)'']
   = Inr (Some (texto ''Jane Doe''))"
  by (simp add: texto_def strip_def es_espacio_def primera_linea_def)

section \<open>Document handles\<close>

text \<open>
  Claim C8 at a document of one page whose \<open>save\<close> raises. The error is recorded for page
  1, the function returns, and the one-page document of page index 0 is still open:
  \<open>close()\<close> is only on the path without exception.
\<close>

theorem separar_certificados_manejador_abierto:
  "abiertos (fst (separar_certificados
      (entorno_de (\<lambda>_ _. SinCoincidencia) (\<lambda>_ _ _. Some (texto ''cannot save''))
         (\<lambda>_. Pdf [texto ''hola'']))
      mundo_vacio (texto ''c.pdf'') None [] (texto ''x/'') [])) = [Nuevo 0] \<and>
   map f_pagina (errores (projr (snd (separar_certificados
      (entorno_de (\<lambda>_ _. SinCoincidencia) (\<lambda>_ _ _. Some (texto ''cannot save''))
         (\<lambda>_. Pdf [texto ''hola'']))
      mundo_vacio (texto ''c.pdf'') None [] (texto ''x/'') [])))) = [1]"
  by (simp add: separar_certificados_def procesar_pagina_def nombre_de_pagina_def
      entorno_de_def mundo_vacio_def Let_def)

section \<open>Exit status\<close>

text \<open>
  Claim C5 at a document of one page whose \<open>save\<close> raises. As the only PDF of the input
  directory it gives exit status 0, although its page failed; given with \<open>--archivo\<close> the
  same document gives exit status 1.
\<close>

theorem main_carpeta_error_estado_cero:
  "snd (main
      (entorno_de (\<lambda>_ _. SinCoincidencia) (\<lambda>_ _ _. Some (texto ''cannot save''))
         (\<lambda>_. Pdf [texto ''hola'']))
      (mundo_vacio\<lparr>entrada := Some [texto ''entrada/c.pdf'']\<rparr>)
      \<lparr>archivo = None, lista = None, prefijo_arg = texto ''x/'', sufijo_arg = [],
       ver_patrones = False, no_limpiar = False, no_borrar_entrada = False\<rparr>) = 0 \<and>
   snd (main
      (entorno_de (\<lambda>_ _. SinCoincidencia) (\<lambda>_ _ _. Some (texto ''cannot save''))
         (\<lambda>_. Pdf [texto ''hola'']))
      mundo_vacio
      \<lparr>archivo = Some (texto ''entrada/c.pdf''), lista = None, prefijo_arg = texto ''x/'',
       sufijo_arg = [], ver_patrones = False, no_limpiar = False,
       no_borrar_entrada = False\<rparr>) = 1"
  by (simp add: main_def procesar_carpeta_entrada_def limpiar_carpeta_salida_def
      separar_certificados_def procesar_pagina_def nombre_de_pagina_def
      entorno_de_def mundo_vacio_def Let_def)

section \<open>The summary partitions the pages\<close>

text \<open>
  Claim C10. When \<open>separar_certificados\<close> returns a summary, the input is a document, the
  recorded total is its number of pages \<open>n\<close>, every page number from 1 to \<open>n\<close> is in the
  list of successes or in the list of errors and in one of them only, no page number is
  repeated in a list, the lengths of the two lists add up to \<open>n\<close>, and both lists are in
  ascending order of page number.
\<close>

theorem resumen_reparte_paginas:
  assumes "separar_certificados ent m ruta_pdf lista_nombres patrones prefijo sufijo
             = (m', Inr res)"
  shows "(\<exists>documento. pdf_en ent ruta_pdf = Pdf documento \<and> total res = length documento) \<and>
     set (map e_pagina (exitosos res)) \<union> set (map f_pagina (errores res)) = {1..total res} \<and>
     set (map e_pagina (exitosos res)) \<inter> set (map f_pagina (errores res)) = {} \<and>
     distinct (map e_pagina (exitosos res)) \<and>
     distinct (map f_pagina (errores res)) \<and>
     length (exitosos res) + length (errores res) = total res \<and>
     sorted_wrt (<) (map e_pagina (exitosos res)) \<and>
     sorted_wrt (<) (map f_pagina (errores res))"
proof (cases "pdf_en ent ruta_pdf")
  case NoExiste
  with assms show ?thesis by (simp add: separar_certificados_def)
next
  case (Ilegible msg)
  with assms show ?thesis by (simp add: separar_certificados_def)
next
  case (Pdf documento)
  let ?m0 = "m\<lparr>abiertos := Documento # abiertos m\<rparr>"
  let ?r0 = "\<lparr>exitosos = [], errores = [], total = length documento,
              pdf_origen = path_name ent ruta_pdf\<rparr>"
  obtain m1 x where b: "bucle_paginas ent ruta_pdf lista_nombres patrones prefijo sufijo 0
      documento ?m0 ?r0 = (m1, x)"
    by (cases "bucle_paginas ent ruta_pdf lista_nombres patrones prefijo sufijo 0 documento ?m0 ?r0")
  from assms Pdf b have x: "x = Inr res"
    by (cases x) (simp_all add: separar_certificados_def Let_def)
  have "paginas_repartidas 0 ?r0" by (simp add: paginas_repartidas_def)
  from paginas_repartidas_bucle [OF b [unfolded x] this]
  have r: "paginas_repartidas (length documento) res" and t: "total res = length documento"
    by simp_all
  from r have s1: "sorted_wrt (<) (map e_pagina (exitosos res))"
    and s2: "sorted_wrt (<) (map f_pagina (errores res))"
    and u: "set (map e_pagina (exitosos res)) \<union> set (map f_pagina (errores res))
              = {1..length documento}"
    and d: "set (map e_pagina (exitosos res)) \<inter> set (map f_pagina (errores res)) = {}"
    and l: "length (exitosos res) + length (errores res) = length documento"
    unfolding paginas_repartidas_def by blast+
  from s1 have d1: "distinct (map e_pagina (exitosos res))"
    by (simp add: strict_sorted_iff)
  from s2 have d2: "distinct (map f_pagina (errores res))"
    by (simp add: strict_sorted_iff)
  have ex: "\<exists>documento. pdf_en ent ruta_pdf = Pdf documento \<and> total res = length documento"
    using Pdf t by simp
  from ex s1 s2 u d l d1 d2 show ?thesis unfolding t by blast
qed

text \<open>
  The theorem at the document of two pages whose second page cannot be saved: page 1 is
  the one success and page 2 the one error.
\<close>

theorem resumen_reparte_paginas_witness:
  "separar_certificados
     entorno_dos_paginas
     mundo_vacio (texto ''c.pdf'') None [] [] []
   = (\<lparr>salida = [texto ''certificado_001.pdf''], entrada = None, abiertos = [Nuevo 1]\<rparr>,
      Inr \<lparr>exitosos = [\<lparr>e_pagina = 1, e_nombre = texto ''certificado_001'',
                         e_archivo = texto ''certificado_001.pdf'', e_origen = Generado\<rparr>],
           errores = [\<lparr>f_pagina = 2, f_error = texto ''cannot save''\<rparr>],
           total = 2, pdf_origen = texto ''c.pdf''\<rparr>) \<and>
   set [1::nat] \<union> set [2] = {1..2} \<and> set [1::nat] \<inter> set [2] = {}"
  using resumen_reparte_paginas [OF separar_dos_paginas] separar_dos_paginas
  by simp

section \<open>The scenario of three pages\<close>

text \<open>
  Claim C6. A document has three pages; the patterns give \<open>Jane Doe\<close> on the first page,
  nothing on the second and \<open>Ana Ruiz\<close> on the third; the list is \<open>["Bob Smith"]\<close>; every
  page is saved. Then the run returns a summary whose successes are page 1 named
  \<open>Bob Smith\<close> from the list, page 2 named \<open>certificado_002\<close> and generated, and page 3
  named \<open>Ana Ruiz\<close> and extracted; there is no error and the total is 3.
\<close>

theorem escenario_tres_paginas:
  assumes "pdf_en ent ruta_pdf = Pdf [p1, p2, p3]"
    and "extraer_nombre_de_pagina (re_search ent) p1 patrones = Inr (Some (texto ''Jane Doe''))"
    and "extraer_nombre_de_pagina (re_search ent) p2 patrones = Inr None"
    and "extraer_nombre_de_pagina (re_search ent) p3 patrones = Inr (Some (texto ''Ana Ruiz''))"
    and "\<forall>i f. guardar ent ruta_pdf i f = None"
  shows "\<exists>m' res.
     separar_certificados ent m ruta_pdf (Some [texto ''Bob Smith'']) patrones prefijo sufijo
       = (m', Inr res) \<and>
     map (\<lambda>e. (e_pagina e, e_nombre e, e_origen e)) (exitosos res)
       = [(1, texto ''Bob Smith'', Lista), (2, texto ''certificado_002'', Generado),
          (3, texto ''Ana Ruiz'', Extraido)] \<and>
     errores res = [] \<and> total res = 3"
proof -
  have b: "texto ''Bob Smith'' \<noteq> []" and a: "texto ''Ana Ruiz'' \<noteq> []"
    by (simp_all add: texto_def)
  have c: "texto ''certificado_'' @ texto ''002'' = texto ''certificado_002''"
    by (simp add: texto_def)
  have n1: "nombre_de_pagina ent (Some [texto ''Bob Smith'']) patrones 0 p1
              = Inr (texto ''Bob Smith'', Lista)"
    using b by (simp add: nombre_de_pagina_def)
  have n2: "nombre_de_pagina ent (Some [texto ''Bob Smith'']) patrones 1 p2
              = Inr (texto ''certificado_002'', Generado)"
    using assms(3) by (simp add: nombre_de_pagina_def formato_03d_SS0 c)
  have n3: "nombre_de_pagina ent (Some [texto ''Bob Smith'']) patrones 2 p3
              = Inr (texto ''Ana Ruiz'', Extraido)"
    using assms(4) a by (simp add: nombre_de_pagina_def)
  have n2': "nombre_de_pagina ent (Some [texto ''Bob Smith'']) patrones (Suc 0) p2
              = Inr (texto ''certificado_002'', Generado)"
    using n2 by simp
  have n3': "nombre_de_pagina ent (Some [texto ''Bob Smith'']) patrones (Suc (Suc 0)) p3
              = Inr (texto ''Ana Ruiz'', Extraido)"
    using n3 by (simp add: numeral_2_eq_2)
  show ?thesis
    using assms(1,5)
    by (simp add: separar_certificados_def procesar_pagina_def n1 n2' n3' Let_def)
qed

text \<open>
  The scenario with the page texts of the specification, run into an empty directory.
\<close>

theorem escenario_tres_paginas_witness:
  "extraer_nombre_de_pagina (re_search entorno_escenario) (texto ''Otorga a: Jane Doe'')
     [texto ''a: (.+)''] = Inr (Some (texto ''Jane Doe'')) \<and>
   extraer_nombre_de_pagina (re_search entorno_escenario) (texto ''Sin nombre'')
     [texto ''a: (.+)''] = Inr None \<and>
   extraer_nombre_de_pagina (re_search entorno_escenario) (texto ''Certifica a: Ana Ruiz'')
     [texto ''a: (.+)''] = Inr (Some (texto ''Ana Ruiz'')) \<and>
   map (\<lambda>e. (e_pagina e, e_nombre e, e_origen e))
     (exitosos (projr (snd (separar_certificados entorno_escenario mundo_vacio (texto ''c.pdf'')
        (Some [texto ''Bob Smith'']) [texto ''a: (.+)''] [] []))))
     = [(1, texto ''Bob Smith'', Lista), (2, texto ''certificado_002'', Generado),
        (3, texto ''Ana Ruiz'', Extraido)] \<and>
   errores (projr (snd (separar_certificados entorno_escenario mundo_vacio (texto ''c.pdf'')
        (Some [texto ''Bob Smith'']) [texto ''a: (.+)''] [] []))) = []"
proof -
  have d: "pdf_en entorno_escenario (texto ''c.pdf'')
             = Pdf [texto ''Otorga a: Jane Doe'', texto ''Sin nombre'',
                    texto ''Certifica a: Ana Ruiz'']"
    by (simp add: entorno_escenario_def entorno_de_def)
  have r: "re_search entorno_escenario = buscar_escenario"
    by (simp add: entorno_escenario_def entorno_de_def)
  have e1: "extraer_nombre_de_pagina (re_search entorno_escenario) (texto ''Otorga a: Jane Doe'')
     [texto ''a: (.+)''] = Inr (Some (texto ''Jane Doe''))"
    unfolding r
    by (simp add: buscar_escenario_def texto_def strip_def es_espacio_def primera_linea_def)
  have e2: "extraer_nombre_de_pagina (re_search entorno_escenario) (texto ''Sin nombre'')
     [texto ''a: (.+)''] = Inr None"
    unfolding r by (simp add: buscar_escenario_def texto_def)
  have e3: "extraer_nombre_de_pagina (re_search entorno_escenario)
     (texto ''Certifica a: Ana Ruiz'') [texto ''a: (.+)''] = Inr (Some (texto ''Ana Ruiz''))"
    unfolding r
    by (simp add: buscar_escenario_def texto_def strip_def es_espacio_def primera_linea_def)
  have g: "\<forall>i f. guardar entorno_escenario (texto ''c.pdf'') i f = None"
    by (simp add: entorno_escenario_def entorno_de_def)
  from escenario_tres_paginas [OF d e1 e2 e3 g, of mundo_vacio "[]" "[]"]
  obtain m' res where s: "separar_certificados entorno_escenario mundo_vacio (texto ''c.pdf'')
        (Some [texto ''Bob Smith'']) [texto ''a: (.+)''] [] [] = (m', Inr res)"
    and x: "map (\<lambda>e. (e_pagina e, e_nombre e, e_origen e)) (exitosos res)
       = [(1, texto ''Bob Smith'', Lista), (2, texto ''certificado_002'', Generado),
          (3, texto ''Ana Ruiz'', Extraido)]"
    and y: "errores res = []"
    by (elim exE conjE)
  from s have "projr (snd (separar_certificados entorno_escenario mundo_vacio (texto ''c.pdf'')
        (Some [texto ''Bob Smith'']) [texto ''a: (.+)''] [] [])) = res" by simp
  with e1 e2 e3 x y show ?thesis by simp
qed

section \<open>A list file that cannot be loaded\<close>

lemma nombre_de_pagina_lista_vacia:
  "nombre_de_pagina ent (Some []) patrones i pag = nombre_de_pagina ent None patrones i pag"
  by (simp add: nombre_de_pagina_def)

lemma procesar_pagina_lista_vacia:
  "procesar_pagina ent ruta_pdf (Some []) patrones prefijo sufijo i pag m res
   = procesar_pagina ent ruta_pdf None patrones prefijo sufijo i pag m res"
  by (simp add: procesar_pagina_def nombre_de_pagina_lista_vacia)

lemma bucle_paginas_lista_vacia:
  "bucle_paginas ent ruta_pdf (Some []) patrones prefijo sufijo i pags m res
   = bucle_paginas ent ruta_pdf None patrones prefijo sufijo i pags m res"
proof (induction pags arbitrary: i m res)
  case Nil
  show ?case by simp
next
  case (Cons pag pags)
  show ?case
    by (simp add: procesar_pagina_lista_vacia Cons.IH split: prod.split sum.split)
qed

lemma separar_certificados_lista_vacia:
  "separar_certificados ent m ruta_pdf (Some []) patrones prefijo sufijo
   = separar_certificados ent m ruta_pdf None patrones prefijo sufijo"
  by (simp add: separar_certificados_def bucle_paginas_lista_vacia Let_def
      split: archivo_pdf.split)

lemma bucle_pdfs_lista_vacia:
  "bucle_pdfs ent (Some []) patrones prefijo sufijo pdfs m todos procesados
   = bucle_pdfs ent None patrones prefijo sufijo pdfs m todos procesados"
proof (induction pdfs arbitrary: m todos procesados)
  case Nil
  show ?case by simp
next
  case (Cons pdf pdfs)
  show ?case
    by (simp add: separar_certificados_lista_vacia Cons.IH split: prod.split sum.split)
qed

lemma procesar_carpeta_entrada_lista_vacia:
  "procesar_carpeta_entrada ent m (Some []) prefijo sufijo limpiar_salida eliminar_entrada
   = procesar_carpeta_entrada ent m None prefijo sufijo limpiar_salida eliminar_entrada"
  by (simp add: procesar_carpeta_entrada_def bucle_pdfs_lista_vacia Let_def
      split: option.split)

lemma cargar_lista_nombres_error:
  "snd (cargar_lista_nombres ent ruta) \<noteq> None \<Longrightarrow> fst (cargar_lista_nombres ent ruta) = []"
  by (auto simp: cargar_lista_nombres_def Let_def split: sum.splits if_splits)

lemma separar_escenario_sin_lista:
  assumes "pdf_en ent = pdf_en entorno_escenario"
    and "guardar ent = guardar entorno_escenario"
    and "re_search ent = re_search entorno_escenario"
  shows "\<exists>m' res. separar_certificados ent m (texto ''c.pdf'') None [texto ''a: (.+)''] [] []
           = (m', Inr res) \<and> errores res = []"
proof -
  have j: "texto ''Jane Doe'' \<noteq> []" and a: "texto ''Ana Ruiz'' \<noteq> []"
    by (simp_all add: texto_def)
  have r: "re_search ent = buscar_escenario"
    using assms(3) by (simp add: entorno_escenario_simps)
  have n1: "nombre_de_pagina ent None [texto ''a: (.+)''] 0 (texto ''Otorga a: Jane Doe'')
              = Inr (texto ''Jane Doe'', Extraido)"
    using j by (simp add: nombre_de_pagina_def r extraer_escenario
        del: extraer_nombre_de_pagina.simps)
  have n2: "nombre_de_pagina ent None [texto ''a: (.+)''] 1 (texto ''Sin nombre'')
              = Inr (texto ''certificado_'' @ formato_03d (1 + 1), Generado)"
    by (simp add: nombre_de_pagina_def r extraer_escenario
        del: extraer_nombre_de_pagina.simps)
  have n3: "nombre_de_pagina ent None [texto ''a: (.+)''] 2 (texto ''Certifica a: Ana Ruiz'')
              = Inr (texto ''Ana Ruiz'', Extraido)"
    using a by (simp add: nombre_de_pagina_def r extraer_escenario
        del: extraer_nombre_de_pagina.simps)
  have d: "pdf_en ent (texto ''c.pdf'')
     = Pdf [texto ''Otorga a: Jane Doe'', texto ''Sin nombre'', texto ''Certifica a: Ana Ruiz'']"
    using assms(1) by (simp add: entorno_escenario_simps)
  have g: "\<forall>i f. guardar ent (texto ''c.pdf'') i f = None"
    using assms(2) by (simp add: entorno_escenario_simps)
  from separar_tres_paginas [OF d n1 n2 n3 g refl refl refl, of m "[]" "[]"]
  show ?thesis by simp
qed

text \<open>
  Claim C7, as the code has it. Let \<open>--lista\<close> name a file. When its extension, in lower
  case, is none of \<open>.xlsx\<close>, \<open>.xls\<close> and \<open>.csv\<close>, \<open>cargar_lista_nombres\<close> reports the
  \<open>ValueError\<close> of the unsupported format and returns the empty list. When the file exists
  and the load reports an exception, the list is empty and \<open>main\<close> goes on exactly as it
  does without \<open>--lista\<close>: every name is extracted or generated, and the exit status is
  the one of that run. When the file does not exist, \<open>main\<close> does not call the loader and
  ends with status 1.
\<close>

theorem lista_invalida_no_fatal:
  assumes "lista args = Some ruta" and "ruta \<noteq> []"
  shows "(str_lower ent (path_suffix ent ruta) \<noteq> texto ''.xlsx'' \<and>
      str_lower ent (path_suffix ent ruta) \<noteq> texto ''.xls'' \<and>
      str_lower ent (path_suffix ent ruta) \<noteq> texto ''.csv'' \<longrightarrow>
        cargar_lista_nombres ent ruta
          = ([], Some (ValueError (str_lower ent (path_suffix ent ruta))))) \<and>
     (existe ent ruta \<and> snd (cargar_lista_nombres ent ruta) \<noteq> None \<longrightarrow>
        fst (cargar_lista_nombres ent ruta) = [] \<and>
        main ent m args = main ent m (args\<lparr>lista := None\<rparr>)) \<and>
     (\<not> existe ent ruta \<and> \<not> ver_patrones args \<longrightarrow> main ent m args = (m, 1))"
proof -
  have a: "str_lower ent (path_suffix ent ruta) \<noteq> texto ''.xlsx'' \<and>
      str_lower ent (path_suffix ent ruta) \<noteq> texto ''.xls'' \<and>
      str_lower ent (path_suffix ent ruta) \<noteq> texto ''.csv'' \<longrightarrow>
        cargar_lista_nombres ent ruta
          = ([], Some (ValueError (str_lower ent (path_suffix ent ruta))))"
    by (simp add: cargar_lista_nombres_def Let_def)
  have b: "main ent m args = main ent m (args\<lparr>lista := None\<rparr>)"
    if "existe ent ruta" and "fst (cargar_lista_nombres ent ruta) = []"
    using assms that
    by (simp add: main_def Let_def separar_certificados_lista_vacia
        procesar_carpeta_entrada_lista_vacia)
  have c: "main ent m args = (m, 1)" if "\<not> existe ent ruta" and "\<not> ver_patrones args"
    using assms that by (simp add: main_def Let_def)
  from a b c cargar_lista_nombres_error [of ent ruta] show ?thesis by blast
qed

text \<open>
  The theorem for the list file \<open>nombres.txt\<close> and the document of the scenario given with
  \<open>--archivo\<close>: the load reports the unsupported format \<open>.txt\<close>, the run is the run
  without a list and ends with status 0; when the list file does not exist the status
  is 1.
\<close>

theorem lista_invalida_no_fatal_witness:
  "cargar_lista_nombres entorno_lista_txt
     (texto ''nombres.txt'') = ([], Some (ValueError (texto ''.txt''))) \<and>
   existe entorno_lista_txt (texto ''nombres.txt'') \<and>
   main entorno_lista_txt mundo_vacio
     \<lparr>archivo = Some (texto ''c.pdf''), lista = Some (texto ''nombres.txt''),
      prefijo_arg = [], sufijo_arg = [], ver_patrones = False, no_limpiar = False,
      no_borrar_entrada = False\<rparr>
   = main entorno_lista_txt mundo_vacio
     \<lparr>archivo = Some (texto ''c.pdf''), lista = None,
      prefijo_arg = [], sufijo_arg = [], ver_patrones = False, no_limpiar = False,
      no_borrar_entrada = False\<rparr> \<and>
   snd (main entorno_lista_txt mundo_vacio
     \<lparr>archivo = Some (texto ''c.pdf''), lista = Some (texto ''nombres.txt''),
      prefijo_arg = [], sufijo_arg = [], ver_patrones = False, no_limpiar = False,
      no_borrar_entrada = False\<rparr>) = 0 \<and>
   main entorno_lista_ausente mundo_vacio
     \<lparr>archivo = Some (texto ''c.pdf''), lista = Some (texto ''nombres.txt''),
      prefijo_arg = [], sufijo_arg = [], ver_patrones = False, no_limpiar = False,
      no_borrar_entrada = False\<rparr> = (mundo_vacio, 1)"
proof -
  let ?E = "entorno_escenario\<lparr>path_suffix := (\<lambda>_. texto ''.txt'')\<rparr>"
  let ?F = "entorno_escenario\<lparr>existe := (\<lambda>_. False)\<rparr>"
  let ?A = "\<lparr>archivo = Some (texto ''c.pdf''), lista = Some (texto ''nombres.txt''),
      prefijo_arg = [], sufijo_arg = [], ver_patrones = False, no_limpiar = False,
      no_borrar_entrada = False\<rparr>"
  have a: "lista ?A = Some (texto ''nombres.txt'')" by simp
  have b: "texto ''nombres.txt'' \<noteq> []" and cp: "texto ''c.pdf'' \<noteq> []"
    by (simp_all add: texto_def)
  have c: "existe ?E (texto ''nombres.txt'')"
    by (simp add: entorno_escenario_def entorno_de_def)
  have f: "\<not> existe ?F (texto ''nombres.txt'')" by simp
  have v: "\<not> ver_patrones ?A" by simp
  have s: "str_lower ?E (path_suffix ?E (texto ''nombres.txt'')) = texto ''.txt''"
    by (simp add: entorno_escenario_def entorno_de_def)
  have n: "texto ''.txt'' \<noteq> texto ''.xlsx'' \<and> texto ''.txt'' \<noteq> texto ''.xls'' \<and>
           texto ''.txt'' \<noteq> texto ''.csv''"
    by (simp add: texto_def)
  note t = lista_invalida_no_fatal [OF a b, of ?E mundo_vacio, unfolded s]
  note u = lista_invalida_no_fatal [OF a b, of ?F mundo_vacio]
  from t n have l: "cargar_lista_nombres ?E (texto ''nombres.txt'')
                      = ([], Some (ValueError (texto ''.txt'')))" by blast
  then have "snd (cargar_lista_nombres ?E (texto ''nombres.txt'')) \<noteq> None" by simp
  with t c have e: "main ?E mundo_vacio ?A = main ?E mundo_vacio (?A\<lparr>lista := None\<rparr>)" by blast
  have p: "patrones_cargados ?E = [texto ''a: (.+)'']"
    by (simp add: entorno_escenario_def entorno_de_def)
  from separar_escenario_sin_lista [of ?E mundo_vacio] obtain m' res where
    r: "separar_certificados ?E mundo_vacio (texto ''c.pdf'') None [texto ''a: (.+)''] [] []
          = (m', Inr res)" and z: "errores res = []"
    by auto
  have "snd (main ?E mundo_vacio (?A\<lparr>lista := None\<rparr>)) = 0"
    using cp by (simp add: main_def p r z)
  with e have o: "snd (main ?E mundo_vacio ?A) = 0" by simp
  from u f v have x: "main ?F mundo_vacio ?A = (mundo_vacio, 1)" by blast
  from l c e o x show ?thesis
    unfolding entorno_lista_txt_def entorno_lista_ausente_def by simp
qed

text \<open>
  Claim C7 as stated fails twice. The extension of \<open>NOMBRES.XLSX\<close> is \<open>.XLSX\<close>, which
  is none of the three strings, but the code compares its lower case \<open>.xlsx\<close>: the file is
  read as a spreadsheet and its names are returned without any error. And a list file
  that cannot be read because it does not exist is fatal: the run that ends with status
  0 without \<open>--lista\<close> ends with status 1.
\<close>

theorem lista_invalida_no_fatal_counterexample:
  "path_suffix entorno_mayusculas (texto ''NOMBRES.XLSX'')
     = texto ''.XLSX'' \<and>
   texto ''.XLSX'' \<noteq> texto ''.xlsx'' \<and> texto ''.XLSX'' \<noteq> texto ''.xls'' \<and>
   texto ''.XLSX'' \<noteq> texto ''.csv'' \<and>
   cargar_lista_nombres entorno_mayusculas (texto ''NOMBRES.XLSX'')
     = ([texto ''Ana''], None) \<and>
   snd (main entorno_lista_ausente mundo_vacio
     \<lparr>archivo = Some (texto ''c.pdf''), lista = Some (texto ''nombres.csv''),
      prefijo_arg = [], sufijo_arg = [], ver_patrones = False, no_limpiar = False,
      no_borrar_entrada = False\<rparr>) = 1 \<and>
   snd (main entorno_lista_ausente mundo_vacio
     \<lparr>archivo = Some (texto ''c.pdf''), lista = None,
      prefijo_arg = [], sufijo_arg = [], ver_patrones = False, no_limpiar = False,
      no_borrar_entrada = False\<rparr>) = 0"
proof -
  let ?E = "entorno_escenario\<lparr>existe := (\<lambda>_. False)\<rparr>"
  have p: "patrones_cargados ?E = [texto ''a: (.+)'']"
    by (simp add: entorno_escenario_def entorno_de_def)
  have c: "texto ''c.pdf'' \<noteq> []" and n: "texto ''nombres.csv'' \<noteq> []"
    by (simp_all add: texto_def)
  from separar_escenario_sin_lista [of ?E mundo_vacio] obtain m' res where
    s: "separar_certificados ?E mundo_vacio (texto ''c.pdf'') None [texto ''a: (.+)''] [] []
          = (m', Inr res)" and e: "errores res = []"
    by auto
  have m0: "snd (main ?E mundo_vacio
     \<lparr>archivo = Some (texto ''c.pdf''), lista = None,
      prefijo_arg = [], sufijo_arg = [], ver_patrones = False, no_limpiar = False,
      no_borrar_entrada = False\<rparr>) = 0"
    using c by (simp add: main_def p s e)
  have m1: "snd (main ?E mundo_vacio
     \<lparr>archivo = Some (texto ''c.pdf''), lista = Some (texto ''nombres.csv''),
      prefijo_arg = [], sufijo_arg = [], ver_patrones = False, no_limpiar = False,
      no_borrar_entrada = False\<rparr>) = 1"
    using n by (simp add: main_def)
  have l: "path_suffix
     (entorno_escenario\<lparr>path_suffix := (\<lambda>_. texto ''.XLSX''),
        str_lower := (\<lambda>s. if s = texto ''.XLSX'' then texto ''.xlsx'' else s),
        leer_tabla := (\<lambda>_ _. Inr [texto ''Ana''])\<rparr>) (texto ''NOMBRES.XLSX'')
     = texto ''.XLSX'' \<and>
   texto ''.XLSX'' \<noteq> texto ''.xlsx'' \<and> texto ''.XLSX'' \<noteq> texto ''.xls'' \<and>
   texto ''.XLSX'' \<noteq> texto ''.csv'' \<and>
   cargar_lista_nombres
     (entorno_escenario\<lparr>path_suffix := (\<lambda>_. texto ''.XLSX''),
        str_lower := (\<lambda>s. if s = texto ''.XLSX'' then texto ''.xlsx'' else s),
        leer_tabla := (\<lambda>_ _. Inr [texto ''Ana''])\<rparr>) (texto ''NOMBRES.XLSX'')
     = ([texto ''Ana''], None)"
    by (simp add: cargar_lista_nombres_def Let_def strip_def es_espacio_def texto_def)
  from l m1 m0 show ?thesis
    unfolding entorno_mayusculas_def entorno_lista_ausente_def by blast
qed

section \<open>Running twice\<close>

lemma es_pdf_append: "es_pdf (x @ texto ''.pdf'')"
  by (simp add: es_pdf_def texto_def)

lemma es_pdf_nombre_con_contador: "es_pdf (nombre_con_contador p n c s)"
proof -
  have "nombre_con_contador p n c s = (p @ n @ texto ''_'' @ str_nat c @ s) @ texto ''.pdf''"
    by (simp add: nombre_con_contador_def)
  then show ?thesis by (simp only: es_pdf_append)
qed

lemma mismos_pdf_miembro:
  "mismos_pdf fs1 fs2 \<Longrightarrow> es_pdf a \<Longrightarrow> a \<in> set fs1 \<longleftrightarrow> a \<in> set fs2"
proof -
  assume "mismos_pdf fs1 fs2" and a: "es_pdf a"
  then have "a \<in> set (filter es_pdf fs1) \<longleftrightarrow> a \<in> set (filter es_pdf fs2)"
    by (simp only: mismos_pdf_def)
  with a show ?thesis by simp
qed

lemma mismos_pdf_Cons: "mismos_pdf fs1 fs2 \<Longrightarrow> mismos_pdf (r # fs1) (r # fs2)"
  by (simp add: mismos_pdf_def)

lemma mismos_pdf_sin_pdf:
  "\<forall>a \<in> set fs1. \<not> es_pdf a \<Longrightarrow> \<forall>a \<in> set fs2. \<not> es_pdf a \<Longrightarrow> mismos_pdf fs1 fs2"
  by (simp add: mismos_pdf_def filter_empty_conv)

lemma manejar_duplicados_mismos_pdf:
  "mismos_pdf fs1 fs2 \<Longrightarrow> es_pdf a \<Longrightarrow>
   manejar_duplicados fs1 p n s a c = manejar_duplicados fs2 p n s a c"
proof (induction fs1 p n s a c rule: manejar_duplicados.induct)
  case (1 fs1 p n s a c)
  from "1.prems" have m: "a \<in> set fs1 \<longleftrightarrow> a \<in> set fs2"
    by (rule mismos_pdf_miembro)
  show ?case
  proof (cases "a \<in> set fs1")
    case True
    from "1.IH" [OF True "1.prems"(1) es_pdf_nombre_con_contador]
    have "manejar_duplicados fs1 p n s (nombre_con_contador p n c s) (c + 1)
            = manejar_duplicados fs2 p n s (nombre_con_contador p n c s) (c + 1)" .
    moreover have "manejar_duplicados fs1 p n s a c
            = manejar_duplicados fs1 p n s (nombre_con_contador p n c s) (c + 1)"
      using True by (subst manejar_duplicados.simps) simp
    moreover have "manejar_duplicados fs2 p n s a c
            = manejar_duplicados fs2 p n s (nombre_con_contador p n c s) (c + 1)"
      using True m by (subst manejar_duplicados.simps) simp
    ultimately show ?thesis by simp
  next
    case False
    with m show ?thesis by (simp add: manejar_duplicados_libre)
  qed
qed

lemma procesar_pagina_mismos_pdf:
  assumes "mismos_pdf (salida m1) (salida m2)"
  shows "snd (procesar_pagina ent ruta_pdf lista_nombres patrones prefijo sufijo i pag m1 res)
       = snd (procesar_pagina ent ruta_pdf lista_nombres patrones prefijo sufijo i pag m2 res) \<and>
     mismos_pdf
       (salida (fst (procesar_pagina ent ruta_pdf lista_nombres patrones prefijo sufijo i pag m1 res)))
       (salida (fst (procesar_pagina ent ruta_pdf lista_nombres patrones prefijo sufijo i pag m2 res)))"
proof (cases "nombre_de_pagina ent lista_nombres patrones i pag")
  case (Inl e)
  with assms show ?thesis by (simp add: procesar_pagina_excepcion)
next
  case (Inr x)
  obtain nombre org where x: "x = (nombre, org)" by (cases x)
  let ?base = "prefijo @ limpiar_nombre_archivo nombre @ sufijo @ texto ''.pdf''"
  let ?r1 = "manejar_duplicados (salida m1) prefijo (limpiar_nombre_archivo nombre) sufijo ?base 1"
  let ?r2 = "manejar_duplicados (salida m2) prefijo (limpiar_nombre_archivo nombre) sufijo ?base 1"
  have "?base = (prefijo @ limpiar_nombre_archivo nombre @ sufijo) @ texto ''.pdf''" by simp
  then have "es_pdf ?base" by (simp only: es_pdf_append)
  with assms have r: "?r1 = ?r2" by (rule manejar_duplicados_mismos_pdf)
  note p1 = procesar_pagina_nombre [OF Inr [unfolded x] refl,
      where m = m1 and prefijo = prefijo and sufijo = sufijo and ruta_pdf = ruta_pdf and res = res]
  note p2 = procesar_pagina_nombre [OF Inr [unfolded x] refl,
      where m = m2 and prefijo = prefijo and sufijo = sufijo and ruta_pdf = ruta_pdf and res = res]
  show ?thesis
  proof (cases "guardar ent ruta_pdf i ?r2")
    case None
    with p1 p2 r assms show ?thesis by (simp add: mismos_pdf_Cons)
  next
    case (Some msg)
    with p1 p2 r assms show ?thesis by simp
  qed
qed

lemma bucle_paginas_mismos_pdf:
  assumes "mismos_pdf (salida m1) (salida m2)"
  shows "snd (bucle_paginas ent ruta_pdf lista_nombres patrones prefijo sufijo i pags m1 res)
       = snd (bucle_paginas ent ruta_pdf lista_nombres patrones prefijo sufijo i pags m2 res)"
  using assms
proof (induction pags arbitrary: i m1 m2 res)
  case Nil
  show ?case by simp
next
  case (Cons pag pags)
  obtain a1 x1 where p1: "procesar_pagina ent ruta_pdf lista_nombres patrones prefijo sufijo i pag m1 res
      = (a1, x1)"
    by (cases "procesar_pagina ent ruta_pdf lista_nombres patrones prefijo sufijo i pag m1 res")
  obtain a2 x2 where p2: "procesar_pagina ent ruta_pdf lista_nombres patrones prefijo sufijo i pag m2 res
      = (a2, x2)"
    by (cases "procesar_pagina ent ruta_pdf lista_nombres patrones prefijo sufijo i pag m2 res")
  from procesar_pagina_mismos_pdf [OF Cons.prems, of ent ruta_pdf lista_nombres patrones prefijo
      sufijo i pag res] p1 p2
  have x: "x1 = x2" and s: "mismos_pdf (salida a1) (salida a2)" by simp_all
  show ?case
  proof (cases x1)
    case (Inl e)
    from p1 Inl have q1: "procesar_pagina ent ruta_pdf lista_nombres patrones prefijo sufijo i pag
        m1 res = (a1, Inl e)" by simp
    from p2 x Inl have q2: "procesar_pagina ent ruta_pdf lista_nombres patrones prefijo sufijo i pag
        m2 res = (a2, Inl e)" by simp
    show ?thesis by (simp add: q1 q2)
  next
    case (Inr res1)
    from p1 Inr have q1: "procesar_pagina ent ruta_pdf lista_nombres patrones prefijo sufijo i pag
        m1 res = (a1, Inr res1)" by simp
    from p2 x Inr have q2: "procesar_pagina ent ruta_pdf lista_nombres patrones prefijo sufijo i pag
        m2 res = (a2, Inr res1)" by simp
    from Cons.IH [OF s] show ?thesis by (simp add: q1 q2)
  qed
qed

lemma separar_certificados_snd:
  assumes "pdf_en ent ruta_pdf = Pdf documento"
  shows "snd (separar_certificados ent m ruta_pdf lista_nombres patrones prefijo sufijo)
       = snd (bucle_paginas ent ruta_pdf lista_nombres patrones prefijo sufijo 0 documento
                (m\<lparr>abiertos := Documento # abiertos m\<rparr>)
                \<lparr>exitosos = [], errores = [], total = length documento,
                  pdf_origen = path_name ent ruta_pdf\<rparr>)"
proof -
  obtain a x where b: "bucle_paginas ent ruta_pdf lista_nombres patrones prefijo sufijo 0 documento
                (m\<lparr>abiertos := Documento # abiertos m\<rparr>)
                \<lparr>exitosos = [], errores = [], total = length documento,
                  pdf_origen = path_name ent ruta_pdf\<rparr> = (a, x)"
    by (cases "bucle_paginas ent ruta_pdf lista_nombres patrones prefijo sufijo 0 documento
                (m\<lparr>abiertos := Documento # abiertos m\<rparr>)
                \<lparr>exitosos = [], errores = [], total = length documento,
                  pdf_origen = path_name ent ruta_pdf\<rparr>")
  show ?thesis
    using assms b by (cases x) (simp_all add: separar_certificados_def Let_def)
qed

text \<open>
  Claim C9. Two runs of \<open>separar_certificados\<close> on the same document, with the same list,
  patterns, prefix and suffix and the same outcomes of \<open>save\<close>, each into an output
  directory in which no path ends with \<open>.pdf\<close>, return the same summary: the same
  successes with their names, files and origins, the same errors, or the same exception.
\<close>

theorem separar_certificados_mismo_resumen:
  assumes "\<forall>a \<in> set (salida m1). \<not> es_pdf a" and "\<forall>a \<in> set (salida m2). \<not> es_pdf a"
  shows "snd (separar_certificados ent m1 ruta_pdf lista_nombres patrones prefijo sufijo)
       = snd (separar_certificados ent m2 ruta_pdf lista_nombres patrones prefijo sufijo)"
proof (cases "pdf_en ent ruta_pdf")
  case NoExiste
  then show ?thesis by (simp add: separar_certificados_def)
next
  case (Ilegible msg)
  then show ?thesis by (simp add: separar_certificados_def)
next
  case (Pdf documento)
  let ?r0 = "\<lparr>exitosos = [], errores = [], total = length documento,
              pdf_origen = path_name ent ruta_pdf\<rparr>"
  have "mismos_pdf (salida (m1\<lparr>abiertos := Documento # abiertos m1\<rparr>))
          (salida (m2\<lparr>abiertos := Documento # abiertos m2\<rparr>))"
    using mismos_pdf_sin_pdf [OF assms] by simp
  from bucle_paginas_mismos_pdf [OF this, of ent ruta_pdf lista_nombres patrones prefijo sufijo 0
      documento ?r0]
  show ?thesis
    by (simp only: separar_certificados_snd [OF Pdf])
qed

text \<open>
  After \<open>limpiar_carpeta_salida\<close> no path of the output directory ends with \<open>.pdf\<close>, when
  every entry is in the directory itself and can be deleted.
\<close>

lemma limpiar_carpeta_salida_sin_pdf:
  assumes "\<forall>a \<in> set (salida m). 47 \<notin> set a \<and> unlink_ok ent a"
  shows "\<forall>a \<in> set (salida (fst (limpiar_carpeta_salida ent m))). \<not> es_pdf a"
  using assms by (auto simp: limpiar_carpeta_salida_def)

lemma limpiar_despues_de_dos_paginas:
  "salida (fst (limpiar_carpeta_salida entorno_dos_paginas
      (fst (separar_certificados entorno_dos_paginas mundo_vacio (texto ''c.pdf'') None [] [] []))))
   = []"
  by (simp add: separar_dos_paginas limpiar_carpeta_salida_def)
     (simp add: es_pdf_def entorno_dos_paginas_def entorno_de_def texto_def)

text \<open>
  The document of two pages is split into an empty directory, which then holds
  \<open>certificado_001.pdf\<close>; the directory is purged and the document is split again. The
  second summary is the first.
\<close>

theorem separar_certificados_mismo_resumen_witness:
  "salida (fst (separar_certificados entorno_dos_paginas mundo_vacio (texto ''c.pdf'')
      None [] [] [])) = [texto ''certificado_001.pdf''] \<and>
   snd (separar_certificados entorno_dos_paginas mundo_vacio (texto ''c.pdf'') None [] [] [])
   = snd (separar_certificados entorno_dos_paginas
       (fst (limpiar_carpeta_salida entorno_dos_paginas
          (fst (separar_certificados entorno_dos_paginas mundo_vacio (texto ''c.pdf'')
             None [] [] []))))
       (texto ''c.pdf'') None [] [] [])"
proof -
  have a: "\<forall>a \<in> set (salida mundo_vacio). \<not> es_pdf a"
    by (simp add: mundo_vacio_def)
  have b: "\<forall>a \<in> set (salida (fst (limpiar_carpeta_salida entorno_dos_paginas
      (fst (separar_certificados entorno_dos_paginas mundo_vacio (texto ''c.pdf'') None [] [] []))))).
      \<not> es_pdf a"
    by (simp add: limpiar_despues_de_dos_paginas)
  note t = separar_certificados_mismo_resumen [OF a b,
      of entorno_dos_paginas "texto ''c.pdf''" None "[]" "[]" "[]"]
  have s: "salida (fst (separar_certificados entorno_dos_paginas mundo_vacio (texto ''c.pdf'')
      None [] [] [])) = [texto ''certificado_001.pdf'']"
    by (simp add: separar_dos_paginas)
  from s t show ?thesis by (rule conjI)
qed

end
